theory Spec2Isabelle
  imports Complex_Main "HOL-Library.Sublist"
begin

section \<open>Medication Buddy: a shallow embedding of the agent's core\<close>

text \<open>
  The development follows the Python sources file by file:
  \<^item> \<^verbatim>\<open>tools/medcheck_tool.py\<close>: the interaction flag checker \<open>medcheck\<close>;
  \<^item> \<^verbatim>\<open>memory/memory_bank.py\<close>: the file-backed event store;
  \<^item> \<^verbatim>\<open>tools/docs_processor.py\<close>: the keyword extractor;
  \<^item> \<^verbatim>\<open>agents/convo_agent.py\<close>: the model gateway \<open>call_gemini\<close>, the memory search,
    the local summarizer, the memory-first responder and the document intake.

  A Python \<open>str\<close> is a \<^typ>\<open>string\<close>, the list of its characters. The values that come out
  of \<open>json.load\<close> and go into \<open>json.dump\<close> are the values of the datatype \<open>json\<close>; a
  \<open>dict\<close> is an association list in insertion order, read with \<^const>\<open>map_of\<close> (a dict
  has distinct keys). A \<open>raise\<close> that leaves a function is a result \<open>Inl e\<close>; an exception
  that a \<open>try\<close> of the source catches takes the \<open>except\<close> branch in the model as well.

  What the sources take from the Python runtime and its libraries, and what depends on the
  Unicode tables, the time zone, the hash seed or the network, is a field of the record
  \<open>pyenv\<close>: the theorems hold for every such environment. The agent is the one the
  constructor builds by default, with \<open>logger = None\<close>: nothing is logged.
\<close>

section \<open>Definitions\<close>

subsection \<open>Python values\<close>

text \<open>The type parameter \<open>'f\<close> is the type of Python's \<open>float\<close>.\<close>

datatype 'f json =
    JNull
  | JBool bool
  | JInt int
  | JFloat 'f
  | JStr string
  | JArr "'f json list"
  | JObj "(string \<times> 'f json) list"

text \<open>An event is a \<open>Dict[str, Any]\<close>.\<close>

type_synonym 'f event = "(string \<times> 'f json) list"

datatype py_error = TypeError | KeyError | IndexError | AttributeError

text \<open>The request that \<open>call_gemini\<close> hands to \<open>requests.post\<close>: URL, key header, payload, timeout.\<close>

record request =
  url :: string
  x_goog_api_key :: string
  prompt_text :: string
  temperature :: rat
  maxOutputTokens :: int
  candidateCount :: int
  timeout :: int

text \<open>
  What \<open>requests.post\<close> and \<open>resp.json()\<close> give back: the call raised, or a response with
  its status code and its parsed body (\<open>None\<close> when \<open>resp.json()\<close> raised).
\<close>

datatype 'f http_result =
    Request_failed
  | Response int "'f json option"

record 'f pyenv =
  isword :: "char \<Rightarrow> bool"  \<comment> \<open>the word characters of \<open>re\<close> (backslash w)\<close>
  lower :: "string \<Rightarrow> string"  \<comment> \<open>\<open>str.lower\<close>\<close>
  upper :: "string \<Rightarrow> string"  \<comment> \<open>\<open>str.upper\<close>\<close>
  float_truthy :: "'f \<Rightarrow> bool"  \<comment> \<open>\<open>bool(x)\<close> of a float\<close>
  py_str :: "'f json \<Rightarrow> string"  \<comment> \<open>\<open>str(v)\<close>\<close>
  json_dumps :: "'f json \<Rightarrow> string"  \<comment> \<open>\<open>json.dumps(v)\<close>\<close>
  strftime_local :: "'f json \<Rightarrow> string option"
    \<comment> \<open>\<open>time.strftime("%Y-%m-%d %H:%M", time.localtime(float(ts)))\<close>, \<open>None\<close> when it raises\<close>
  set_iter :: "string list \<Rightarrow> string list"
    \<comment> \<open>the iteration order of a \<open>set\<close> of strings, given its elements in insertion order\<close>
  requests_post :: "request \<Rightarrow> 'f http_result"  \<comment> \<open>\<open>requests.post\<close>, then \<open>resp.json()\<close>\<close>

text \<open>Truth value testing: \<open>if v\<close>, \<open>not v\<close>, \<open>a or b\<close>.\<close>

fun truthy :: "'f pyenv \<Rightarrow> 'f json \<Rightarrow> bool" where
  "truthy env JNull = False"
| "truthy env (JBool b) = b"
| "truthy env (JInt i) = (i \<noteq> 0)"
| "truthy env (JFloat x) = float_truthy env x"
| "truthy env (JStr s) = (s \<noteq> [])"
| "truthy env (JArr xs) = (xs \<noteq> [])"
| "truthy env (JObj kvs) = (kvs \<noteq> [])"

definition py_or :: "'f pyenv \<Rightarrow> 'f json \<Rightarrow> 'f json \<Rightarrow> 'f json" where
  "py_or env a b = (if truthy env a then a else b)"

text \<open>\<open>d.get(k, dflt)\<close> on a dict; \<open>v.get(k)\<close> on any value: only a dict has the method.\<close>

definition dict_get :: "(string \<times> 'f json) list \<Rightarrow> string \<Rightarrow> 'f json \<Rightarrow> 'f json" where
  "dict_get d k dflt = (case map_of d k of None \<Rightarrow> dflt | Some v \<Rightarrow> v)"

fun attr_get :: "'f json \<Rightarrow> string \<Rightarrow> py_error + 'f json" where
  "attr_get (JObj d) k = Inr (dict_get d k JNull)"
| "attr_get v k = Inl AttributeError"

text \<open>\<open>v[0]\<close>: a dict that came out of JSON has string keys only, so \<open>0\<close> is no key of it.\<close>

fun getitem0 :: "'f json \<Rightarrow> py_error + 'f json" where
  "getitem0 (JArr (x # xs)) = Inr x"
| "getitem0 (JStr (c # cs)) = Inr (JStr [c])"
| "getitem0 (JArr []) = Inl IndexError"
| "getitem0 (JStr []) = Inl IndexError"
| "getitem0 (JObj d) = Inl KeyError"
| "getitem0 v = Inl TypeError"

text \<open>\<open>v[:n]\<close>: a list and a string can be sliced (a dict raises, as do the scalars).\<close>

fun slice_to :: "nat \<Rightarrow> 'f json \<Rightarrow> py_error + 'f json" where
  "slice_to n (JArr xs) = Inr (JArr (take n xs))"
| "slice_to n (JStr s) = Inr (JStr (take n s))"
| "slice_to n v = Inl TypeError"

text \<open>\<open>for x in v\<close>: the elements of a list, the characters of a string, the keys of a dict.\<close>

fun py_iter :: "'f json \<Rightarrow> py_error + 'f json list" where
  "py_iter (JArr xs) = Inr xs"
| "py_iter (JStr s) = Inr (map (\<lambda>c. JStr [c]) s)"
| "py_iter (JObj d) = Inr (map (\<lambda>(k, v). JStr k) d)"
| "py_iter v = Inl TypeError"

text \<open>\<open>sep.join(xs)\<close>: every item has to be a string.\<close>

fun str_items :: "'f json list \<Rightarrow> py_error + string list" where
  "str_items [] = Inr []"
| "str_items (JStr s # vs) = (case str_items vs of Inl e \<Rightarrow> Inl e | Inr ss \<Rightarrow> Inr (s # ss))"
| "str_items (v # vs) = Inl TypeError"

fun join :: "string \<Rightarrow> string list \<Rightarrow> string" where
  "join sep [] = []"
| "join sep [s] = s"
| "join sep (s # t # ss) = s @ sep @ join sep (t # ss)"

definition py_join :: "string \<Rightarrow> 'f json list \<Rightarrow> py_error + string" where
  "py_join sep vs = (case str_items vs of Inl e \<Rightarrow> Inl e | Inr ss \<Rightarrow> Inr (join sep ss))"

fun is_str :: "'f json \<Rightarrow> bool" where
  "is_str (JStr s) = True"
| "is_str v = False"

text \<open>\<open>str(v)\<close> and the \<open>{v}\<close> of an f-string: a string is itself.\<close>

definition py_format :: "'f pyenv \<Rightarrow> 'f json \<Rightarrow> string" where
  "py_format env v = (case v of JStr s \<Rightarrow> s | _ \<Rightarrow> py_str env v)"

text \<open>
  \<open>str.isspace\<close> of a character, for the characters a \<^typ>\<open>char\<close> can hold (code points
  below 256); \<open>str.strip()\<close>, \<open>str.split()\<close> and the whitespace class of \<open>re\<close> use it.
\<close>

definition isspace :: "char \<Rightarrow> bool" where
  "isspace c = (of_char c \<in> {9, 10, 11, 12, 13, 28, 29, 30, 31, 32, 133, 160 :: nat})"

definition strip :: "string \<Rightarrow> string" where
  "strip s = rev (dropWhile isspace (rev (dropWhile isspace s)))"

text \<open>
  \<open>re.findall(cls + "+", s)\<close> for a character class: the maximal runs of characters of the
  class, from left to right; \<open>cur\<close> is the run being read.
\<close>

fun findall_runs :: "(char \<Rightarrow> bool) \<Rightarrow> string \<Rightarrow> string \<Rightarrow> string list" where
  "findall_runs cls cur [] = (if cur = [] then [] else [cur])"
| "findall_runs cls cur (c # cs) =
     (if cls c then findall_runs cls (cur @ [c]) cs
      else (if cur = [] then [] else [cur]) @ findall_runs cls [] cs)"

text \<open>\<open>s.split()\<close>: the maximal runs of characters that are not whitespace.\<close>

definition split_whitespace :: "string \<Rightarrow> string list" where
  "split_whitespace s = findall_runs (\<lambda>c. \<not> isspace c) [] s"

text \<open>
  A \<open>set\<close> of strings, as the list of its elements in insertion order: \<open>s.add(x)\<close> and
  \<open>s.update(xs)\<close>. \<open>list(s)\<close> is \<open>set_iter env s\<close>.
\<close>

definition set_add :: "string list \<Rightarrow> string \<Rightarrow> string list" where
  "set_add xs x = (if x \<in> set xs then xs else xs @ [x])"

definition set_update :: "string list \<Rightarrow> string list \<Rightarrow> string list" where
  "set_update xs ys = foldl set_add xs ys"

subsection \<open>\<^verbatim>\<open>tools/medcheck_tool.py\<close>\<close>

text \<open>
  The docstring fixes the input: a list of dicts with the key \<open>name\<close> and an optional
  key \<open>time\<close> (\<open>HH:MM\<close>). Other keys (the demo driver passes \<open>dose\<close>) are never read;
  they live in the record's extension.
\<close>

record med =
  name :: string
  time :: "string option"

text \<open>
  A flag is a dict with a \<open>type\<close> discriminator:
  \<open>{"type": "timing_conflict", "time": t, "meds": names_at_time}\<close> or
  \<open>{"type": "interaction", "pair": p, "severity": s, "note": n}\<close>.
\<close>

datatype flag =
  Timing_conflict string "string list"
| Interaction "string list" string string

text \<open>\<open>m.get("time", "00:00")\<close>\<close>

definition get_time :: "'a med_scheme \<Rightarrow> string" where
  "get_time m = (case time m of None \<Rightarrow> ''00:00'' | Some t \<Rightarrow> t)"

text \<open>
  \<open>times.setdefault(t, []).append(n)\<close> on a dict in insertion order: a new key goes to
  the end, an old key keeps its place and its list grows at the end.
\<close>

fun setdefault_append ::
  "(string \<times> string list) list \<Rightarrow> string \<Rightarrow> string \<Rightarrow> (string \<times> string list) list" where
  "setdefault_append [] t n = [(t, [n])]"
| "setdefault_append ((k, ns) # rest) t n =
     (if k = t then (k, ns @ [n]) # rest else (k, ns) # setdefault_append rest t n)"

definition medcheck :: "'a med_scheme list \<Rightarrow> flag list" where
  "medcheck meds =
     (let names = map name meds;
          times = foldl (\<lambda>times m. setdefault_append times (get_time m) (name m)) [] meds;
          flags = map (\<lambda>(t, names_at_time). Timing_conflict t names_at_time)
                    (filter (\<lambda>(t, names_at_time). length names_at_time > 1) times);
          flags = flags @
            (if ''Warfarin'' \<in> set names \<and> ''Aspirin'' \<in> set names
             then [Interaction [''Warfarin'', ''Aspirin''] ''high'' ''Bleeding risk'']
             else []);
          flags = flags @
            (if ''Metformin'' \<in> set names \<and> ''Contrast'' \<in> set names
             then [Interaction [''Metformin'', ''Contrast''] ''moderate''
                     ''Consider holding Metformin around contrast imaging'']
             else [])
      in flags)"

text \<open>Vocabulary for the properties of \<open>medcheck\<close>.\<close>

fun conflict_at :: "string \<Rightarrow> flag \<Rightarrow> bool" where
  "conflict_at t (Timing_conflict t' ns) = (t' = t)"
| "conflict_at t (Interaction p s n) = False"

definition names_at :: "string \<Rightarrow> 'a med_scheme list \<Rightarrow> string list" where
  "names_at t meds = map name (filter (\<lambda>m. get_time m = t) meds)"

definition times_of :: "'a med_scheme list \<Rightarrow> (string \<times> string list) list" where
  "times_of meds = foldl (\<lambda>times m. setdefault_append times (get_time m) (name m)) [] meds"

subsection \<open>\<^verbatim>\<open>memory/memory_bank.py\<close>\<close>

text \<open>
  The bank holds the dict \<open>store\<close> from user identifiers to event lists; \<open>disk\<close> is the
  content of the JSON file, as \<open>_save\<close> wrote it last. A write to the file that fails is
  outside of the model.
\<close>

record 'f memory_bank =
  store :: "string \<rightharpoonup> 'f event list"
  disk :: "string \<rightharpoonup> 'f event list"

text \<open>The bank that the constructor builds when there is no file yet: it writes \<open>{}\<close> and loads it.\<close>

definition empty_bank :: "'f memory_bank" where
  "empty_bank = \<lparr>store = Map.empty, disk = Map.empty\<rparr>"

definition save :: "'f memory_bank \<Rightarrow> 'f memory_bank" where
  "save mb = mb\<lparr>disk := store mb\<rparr>"

text \<open>
  \<open>append_user_event\<close>; \<open>now\<close> is the value of \<open>time.time()\<close>. \<open>setdefault\<close> puts a new
  key at the end of the copied event.
\<close>

definition append_user_event ::
  "'f memory_bank \<Rightarrow> string \<Rightarrow> 'f event \<Rightarrow> 'f \<Rightarrow> 'f memory_bank" where
  "append_user_event mb user_id event now =
     (let events = (case store mb user_id of None \<Rightarrow> [] | Some evs \<Rightarrow> evs);
          event = (case map_of event ''recorded_at'' of
                     None \<Rightarrow> event @ [(''recorded_at'', JFloat now)]
                   | Some v \<Rightarrow> event)
      in save (mb\<lparr>store := (store mb)(user_id \<mapsto> events @ [event])\<rparr>))"

definition get_user_memory :: "'f memory_bank \<Rightarrow> string \<Rightarrow> 'f event list" where
  "get_user_memory mb user_id = (case store mb user_id of None \<Rightarrow> [] | Some evs \<Rightarrow> evs)"

text \<open>Vocabulary for the properties of the store: a run of appends, and the invariant.\<close>

fun appends :: "'f memory_bank \<Rightarrow> (string \<times> 'f event \<times> 'f) list \<Rightarrow> 'f memory_bank" where
  "appends mb [] = mb"
| "appends mb ((user_id, event, now) # rest) =
     appends (append_user_event mb user_id event now) rest"

definition stamped :: "'f event \<Rightarrow> 'f \<Rightarrow> 'f event" where
  "stamped event now =
     (if map_of event ''recorded_at'' = None then event @ [(''recorded_at'', JFloat now)]
      else event)"

definition has_key :: "'f event \<Rightarrow> string \<Rightarrow> bool" where
  "has_key event k = (map_of event k \<noteq> None)"

definition all_recorded :: "'f memory_bank \<Rightarrow> bool" where
  "all_recorded mb =
     (\<forall>user_id. list_all (\<lambda>e. has_key e ''recorded_at'') (get_user_memory mb user_id))"

subsection \<open>\<^verbatim>\<open>tools/docs_processor.py\<close>\<close>

text \<open>
  The characters that the \<open>re.sub\<close> of \<open>extract_keywords\<close> keeps: \<open>a\<close> to \<open>z\<close>, \<open>0\<close> to \<open>9\<close>,
  whitespace and the hyphen; it puts a space for every other character.
\<close>

definition keep_char :: "char \<Rightarrow> bool" where
  "keep_char c =
     (let n = (of_char c :: nat)
      in (97 \<le> n \<and> n \<le> 122) \<or> (48 \<le> n \<and> n \<le> 57) \<or> isspace c \<or> c = CHR ''-'')"

definition medical_words :: "string list" where
  "medical_words = [''pain'', ''pressure'', ''diabetes'', ''fever'', ''cough'', ''fracture'',
     ''rash'', ''lipid'', ''cholesterol'', ''blood'', ''pressure'', ''metformin'',
     ''atorvastatin'', ''aspirin'', ''warfarin'']"

definition extract_keywords :: "'f pyenv \<Rightarrow> string \<Rightarrow> nat \<Rightarrow> string list" where
  "extract_keywords env text top_k =
     (let t = lower env text;
          t = map (\<lambda>c. if keep_char c then c else CHR '' '') t;
          tokens = filter (\<lambda>w. length w > 2) (split_whitespace t);
          ngrams = set_update []
            (concat (map (\<lambda>n. map (\<lambda>i. join '' '' (take n (drop i tokens)))
                                  [0..<length tokens + 1 - n]) [1, 2, 3]));
          prioritized =
            filter (\<lambda>g. list_ex (\<lambda>k. sublist k g) medical_words) (set_iter env ngrams);
          prioritized = (if prioritized = [] then set_iter env ngrams else prioritized)
      in take top_k prioritized)"

subsection \<open>\<^verbatim>\<open>agents/convo_agent.py\<close>: the model gateway\<close>

text \<open>
  The agent's configuration, read from the process environment by the constructor, and its
  memory bank. \<open>os.getenv("GEMINI_API_KEY")\<close> is \<open>None\<close> when the variable is not set.
\<close>

record 'f agent =
  GEMINI_API_KEY :: "string option"
  GEMINI_ENDPOINT :: string
  GEMINI_MODEL :: string
  memory :: "'f memory_bank"

text \<open>
  The helper \<open>extract_text\<close> of \<open>call_gemini\<close>. Its body is one \<open>try\<close>: any exception makes
  it return \<open>None\<close>. The parts of the body return \<open>Some r\<close> where the source returns \<open>r\<close>,
  and \<open>None\<close> where control falls through to the next strategy.

  First candidate's first content part: \<open>parts[0]\<close>.
\<close>

definition from_parts :: "'f json \<Rightarrow> py_error + 'f json option" where
  "from_parts parts =
     (case getitem0 parts of
        Inl e \<Rightarrow> Inl e
      | Inr first \<Rightarrow>
          (case first of
             JObj fd \<Rightarrow> (case map_of fd ''text'' of Some t \<Rightarrow> Inr (Some t) | None \<Rightarrow> Inr None)
           | JStr s \<Rightarrow> Inr (Some first)
           | _ \<Rightarrow> Inr None))"

text \<open>The block under \<open>if candidates:\<close>, ending with the candidate's \<open>output\<close> field.\<close>

definition from_candidates :: "'f pyenv \<Rightarrow> 'f json \<Rightarrow> py_error + 'f json option" where
  "from_candidates env candidates =
     (case getitem0 candidates of
        Inl e \<Rightarrow> Inl e
      | Inr c0 \<Rightarrow>
     (case attr_get c0 ''content'' of
        Inl e \<Rightarrow> Inl e
      | Inr cv \<Rightarrow>
     (case attr_get (py_or env cv (JObj [])) ''parts'' of
        Inl e \<Rightarrow> Inl e
      | Inr pv \<Rightarrow>
     (let parts = py_or env pv (JArr []) in
      case (if truthy env parts then from_parts parts else Inr None) of
        Inl e \<Rightarrow> Inl e
      | Inr (Some r) \<Rightarrow> Inr (Some r)
      | Inr None \<Rightarrow>
          (case attr_get c0 ''output'' of
             Inl e \<Rightarrow> Inl e
           | Inr ov \<Rightarrow> if is_str ov then Inr (Some ov) else Inr None)))))"

text \<open>
  The \<open>messages\<close> strategy: the inner loop collects the \<open>text\<close> of every dict in a message's
  content, the outer loop runs over the messages.
\<close>

fun content_texts :: "'f json list \<Rightarrow> 'f json list" where
  "content_texts [] = []"
| "content_texts (JObj cd # cs) =
     (case map_of cd ''text'' of Some t \<Rightarrow> t # content_texts cs | None \<Rightarrow> content_texts cs)"
| "content_texts (c # cs) = content_texts cs"

fun message_texts :: "'f pyenv \<Rightarrow> 'f json list \<Rightarrow> py_error + 'f json list" where
  "message_texts env [] = Inr []"
| "message_texts env (m # ms) =
     (case attr_get m ''content'' of
        Inl e \<Rightarrow> Inl e
      | Inr cv \<Rightarrow>
     (case py_iter (py_or env cv (JArr [])) of
        Inl e \<Rightarrow> Inl e
      | Inr cs \<Rightarrow>
     (case message_texts env ms of
        Inl e \<Rightarrow> Inl e
      | Inr texts \<Rightarrow> Inr (content_texts cs @ texts))))"

definition from_messages :: "'f pyenv \<Rightarrow> 'f json \<Rightarrow> py_error + 'f json" where
  "from_messages env messages =
     (case py_iter messages of
        Inl e \<Rightarrow> Inl e
      | Inr ms \<Rightarrow>
     (case message_texts env ms of
        Inl e \<Rightarrow> Inl e
      | Inr texts \<Rightarrow>
          if texts \<noteq> []
          then (case py_join ''\<newline>'' texts of Inl e \<Rightarrow> Inl e | Inr s \<Rightarrow> Inr (JStr s))
          else Inr JNull))"

definition extract_text_try :: "'f pyenv \<Rightarrow> 'f json \<Rightarrow> py_error + 'f json" where
  "extract_text_try env d =
     (case attr_get d ''candidates'' of
        Inl e \<Rightarrow> Inl e
      | Inr cv \<Rightarrow>
     (let candidates = py_or env cv (JArr []) in
      case (if truthy env candidates then from_candidates env candidates else Inr None) of
        Inl e \<Rightarrow> Inl e
      | Inr (Some r) \<Rightarrow> Inr r
      | Inr None \<Rightarrow>
          (case d of
             JObj dd \<Rightarrow>
               (case map_of dd ''output_text'' of
                  Some (JStr s) \<Rightarrow> Inr (JStr s)
                | _ \<Rightarrow>
                  (case map_of dd ''messages'' of
                     Some messages \<Rightarrow> from_messages env messages
                   | None \<Rightarrow> Inr JNull))
           | _ \<Rightarrow> Inl AttributeError)))"

definition extract_text :: "'f pyenv \<Rightarrow> 'f json \<Rightarrow> 'f json" where
  "extract_text env d = (case extract_text_try env d of Inl e \<Rightarrow> JNull | Inr r \<Rightarrow> r)"

text \<open>The defaults of \<open>call_gemini\<close>: \<open>max_output_tokens = 512\<close> and \<open>temperature = 0.2\<close>.\<close>

definition DEFAULT_MAX_OUTPUT_TOKENS :: int where
  "DEFAULT_MAX_OUTPUT_TOKENS = 512"

definition DEFAULT_TEMPERATURE :: rat where
  "DEFAULT_TEMPERATURE = 2 / 10"

text \<open>\<open>self.GEMINI_ENDPOINT.rstrip("/")\<close>, and the request of lines 55 to 74.\<close>

definition rstrip_slash :: "string \<Rightarrow> string" where
  "rstrip_slash s = rev (dropWhile (\<lambda>c. c = CHR ''/'') (rev s))"

definition gemini_request :: "('f, 'a) agent_scheme \<Rightarrow> string \<Rightarrow> string \<Rightarrow> int \<Rightarrow> rat \<Rightarrow> request" where
  "gemini_request ag api_key prompt max_output_tokens temp =
     (let base = rstrip_slash (GEMINI_ENDPOINT ag);
          model = GEMINI_MODEL ag
      in \<lparr>url = base @ ''/'' @ model @ '':generateContent'',
          x_goog_api_key = api_key,
          prompt_text = prompt,
          temperature = temp,
          maxOutputTokens = max_output_tokens,
          candidateCount = 1,
          timeout = 60\<rparr>)"

text \<open>
  The truncation check is a \<open>try\<close> whose \<open>except\<close> passes on:
  \<open>cand0 = (body_json.get("candidates") or [None])[0]\<close>, then the test of \<open>finishReason\<close>.
  \<open>truncated\<close> is \<open>Some r\<close> where the block returns \<open>r\<close>. In \<open>out + note\<close> anything but a
  string raises \<open>TypeError\<close>, which the \<open>except\<close> swallows.
\<close>

definition first_candidate :: "'f pyenv \<Rightarrow> 'f json \<Rightarrow> py_error + 'f json" where
  "first_candidate env body_json =
     (case attr_get body_json ''candidates'' of
        Inl e \<Rightarrow> Inl e
      | Inr cv \<Rightarrow> getitem0 (py_or env cv (JArr [JNull])))"

definition truncation_note :: string where
  "truncation_note =
     ''\<newline>\<newline>---\<newline>(Note: model truncated by MAX_TOKENS; consider raising max_output_tokens)''"

definition truncated :: "'f pyenv \<Rightarrow> 'f json \<Rightarrow> 'f json \<Rightarrow> 'f json option" where
  "truncated env body_json out =
     (case first_candidate env body_json of
        Inl e \<Rightarrow> None
      | Inr cand0 \<Rightarrow>
          (case cand0 of
             JObj c \<Rightarrow>
               if truthy env cand0 \<and> dict_get c ''finishReason'' JNull = JStr ''MAX_TOKENS''
               then (if truthy env out
                     then (case out of JStr s \<Rightarrow> Some (JStr (s @ truncation_note)) | _ \<Rightarrow> None)
                     else Some (JStr ''MODEL_TRUNCATED: Increase max_output_tokens. Partial candidate logged.''))
               else None
           | _ \<Rightarrow> None))"

text \<open>\<open>call_gemini\<close>: it returns \<open>out\<close> as it is, which need not be a string.\<close>

definition call_gemini :: "'f pyenv \<Rightarrow> ('f, 'a) agent_scheme \<Rightarrow> string \<Rightarrow> int \<Rightarrow> rat \<Rightarrow> 'f json" where
  "call_gemini env ag prompt max_output_tokens temp =
     (case GEMINI_API_KEY ag of
        None \<Rightarrow> JStr (''SIMULATED MODEL RESPONSE: '' @ (take 200 prompt @ ''...''))
      | Some api_key \<Rightarrow>
          if api_key = [] then JStr (''SIMULATED MODEL RESPONSE: '' @ (take 200 prompt @ ''...''))
          else
            (case requests_post env (gemini_request ag api_key prompt max_output_tokens temp) of
               Request_failed \<Rightarrow> JStr ''SIMULATED MODEL RESPONSE (request error).''
             | Response status_code parsed \<Rightarrow>
                 (case parsed of
                    None \<Rightarrow> JStr ''SIMULATED MODEL RESPONSE (API error). See logs.''
                  | Some body_json \<Rightarrow>
                      if status_code \<noteq> 200 \<or> \<not> truthy env body_json
                      then JStr ''SIMULATED MODEL RESPONSE (API error). See logs.''
                      else
                        (let out = extract_text env body_json in
                         case truncated env body_json out of
                           Some r \<Rightarrow> r
                         | None \<Rightarrow>
                             if truthy env out then out
                             else JStr ''SIMULATED MODEL RESPONSE (unparseable). See logs.''))))"

subsection \<open>\<^verbatim>\<open>agents/convo_agent.py\<close>: memory search, summary, responder\<close>

text \<open>
  \<open>q_tokens = [t.lower() for t in re.findall(word+, query) if len(t) > 2][:10]\<close>
\<close>

definition query_tokens :: "'f pyenv \<Rightarrow> string \<Rightarrow> string list" where
  "query_tokens env query =
     take 10 (map (lower env) (filter (\<lambda>t. length t > 2) (findall_runs (isword env) [] query)))"

text \<open>
  The inner loop of \<open>search_memory\<close>: some token is a substring of the lowercased JSON text
  of the event.
\<close>

definition event_matches :: "'f pyenv \<Rightarrow> string list \<Rightarrow> 'f event \<Rightarrow> bool" where
  "event_matches env q_tokens ev =
     (let s = lower env (json_dumps env (JObj ev)) in list_ex (\<lambda>t. sublist t s) q_tokens)"

text \<open>
  The outer loop, over \<open>reversed(events)\<close>: after each event, matching or not, it breaks when
  \<open>len(matches) >= max_results\<close>.
\<close>

fun search_loop ::
  "'f pyenv \<Rightarrow> string list \<Rightarrow> int \<Rightarrow> 'f event list \<Rightarrow> 'f event list \<Rightarrow> 'f event list" where
  "search_loop env q_tokens max_results [] matches = matches"
| "search_loop env q_tokens max_results (ev # rest) matches =
     (let matches = (if event_matches env q_tokens ev then matches @ [ev] else matches)
      in if int (length matches) \<ge> max_results then matches
         else search_loop env q_tokens max_results rest matches)"

definition search_memory ::
  "'f pyenv \<Rightarrow> ('f, 'a) agent_scheme \<Rightarrow> string \<Rightarrow> string \<Rightarrow> int \<Rightarrow> 'f event list" where
  "search_memory env ag user_id query max_results =
     (let events = get_user_memory (memory ag) user_id in
      if events = [] then []
      else let q_tokens = query_tokens env query in
        if q_tokens = [] then []
        else search_loop env q_tokens max_results (rev events) [])"

text \<open>
  The body of the loop of \<open>summarize_events\<close>: the bullet of one event. The slice, the
  comprehension and the two \<open>join\<close>s of the \<open>uploaded_doc_summary\<close> branch can raise.
\<close>

definition bullet :: "'f pyenv \<Rightarrow> 'f event \<Rightarrow> py_error + string" where
  "bullet env ev =
     (let tp = dict_get ev ''type'' (JStr ''event'') in
      if tp = JStr ''adherence_event'' then
        (let med = py_or env (py_or env (dict_get ev ''med'' JNull) (dict_get ev ''med_name'' JNull))
                     (JStr []);
             ts = py_or env (py_or env (py_or env (dict_get ev ''timestamp'' JNull)
                     (dict_get ev ''recorded_at'' JNull)) (dict_get ev ''time'' JNull)) (JStr []);
             human_ts = (case strftime_local env ts of Some s \<Rightarrow> s | None \<Rightarrow> py_format env ts)
         in Inr (''- Took '' @ py_format env med @ '' at '' @ human_ts))
      else if tp = JStr ''uploaded_doc_summary'' then
        (case slice_to 6 (dict_get ev ''keywords'' (JArr [])) of
           Inl e \<Rightarrow> Inl e
         | Inr kws \<Rightarrow>
        (case py_iter kws of
           Inl e \<Rightarrow> Inl e
         | Inr ks \<Rightarrow>
        (case py_join '', '' ks of
           Inl e \<Rightarrow> Inl e
         | Inr meds \<Rightarrow>
        (case py_iter (dict_get ev ''suggested_specialties'' (JArr [])) of
           Inl e \<Rightarrow> Inl e
         | Inr ss \<Rightarrow>
        (case py_join '', '' ss of
           Inl e \<Rightarrow> Inl e
         | Inr specs \<Rightarrow>
             Inr (''- Uploaded doc keywords: '' @ meds @ ''. Suggested: '' @ specs))))))
      else if tp = JStr ''doctor_advice'' then
        (let adv = dict_get ev ''advice_text'' (JStr []);
             doc = dict_get ev ''doctor_id'' (JStr ''doctor'')
         in Inr (''- Doctor '' @ py_format env doc @ '' advised: '' @ py_format env adv))
      else Inr (''- '' @ py_format env tp @ '': '' @ take 120 (py_str env (JObj ev))))"

fun bullets_of :: "'f pyenv \<Rightarrow> 'f event list \<Rightarrow> py_error + string list" where
  "bullets_of env [] = Inr []"
| "bullets_of env (ev # events) =
     (case bullet env ev of
        Inl e \<Rightarrow> Inl e
      | Inr b \<Rightarrow>
          (case bullets_of env events of Inl e \<Rightarrow> Inl e | Inr bs \<Rightarrow> Inr (b # bs)))"

definition summarize_events ::
  "'f pyenv \<Rightarrow> ('f, 'a) agent_scheme \<Rightarrow> 'f event list \<Rightarrow> bool \<Rightarrow> py_error + 'f json" where
  "summarize_events env ag events concise =
     (if events = [] then Inr (JStr [])
      else
        (case bullets_of env events of
           Inl e \<Rightarrow> Inl e
         | Inr bullets \<Rightarrow>
             (let summary = join ''\<newline>'' (take 20 bullets) in
              if length bullets > 20 \<and> \<not> concise then
                (let prompt = ''Summarize these patient events into 3 concise lines:\<newline>\<newline>'' @ summary;
                     model_out = call_gemini env ag prompt 200 DEFAULT_TEMPERATURE
                 in Inr (py_or env model_out (JStr summary)))
              else Inr (JStr summary))))"

text \<open>
  The responder. \<open>summary.strip()\<close> needs a string; with \<open>concise=True\<close> the summarizer
  returns one.
\<close>

definition respond_with_memory_first ::
  "'f pyenv \<Rightarrow> ('f, 'a) agent_scheme \<Rightarrow> string \<Rightarrow> string \<Rightarrow> py_error + 'f json" where
  "respond_with_memory_first env ag user_id query =
     (let matches = search_memory env ag user_id query 8 in
      if matches \<noteq> [] then
        (case summarize_events env ag matches True of
           Inl e \<Rightarrow> Inl e
         | Inr (JStr summary) \<Rightarrow>
             if strip summary = []
             then Inr (call_gemini env ag query DEFAULT_MAX_OUTPUT_TOKENS DEFAULT_TEMPERATURE)
             else Inr (JStr (''I found these saved notes related to your question:\<newline>\<newline>'' @ summary @
                 ''\<newline>\<newline>If you want more details I can expand or ask the model to interpret these.''))
         | Inr other \<Rightarrow> Inl AttributeError)
      else Inr (call_gemini env ag query DEFAULT_MAX_OUTPUT_TOKENS DEFAULT_TEMPERATURE))"

text \<open>
  Vocabulary for the properties of the summarizer: an \<open>uploaded_doc_summary\<close> event whose
  \<open>keywords\<close> and \<open>suggested_specialties\<close> are absent or lists of strings, as
  \<open>handle_uploaded_document\<close> writes them.
\<close>

fun str_list :: "'f json \<Rightarrow> bool" where
  "str_list (JArr xs) = list_all is_str xs"
| "str_list v = False"

definition doc_fields_ok :: "'f event \<Rightarrow> bool" where
  "doc_fields_ok ev =
     (dict_get ev ''type'' (JStr ''event'') \<noteq> JStr ''uploaded_doc_summary''
      \<or> (str_list (dict_get ev ''keywords'' (JArr []))
          \<and> str_list (dict_get ev ''suggested_specialties'' (JArr []))))"

subsection \<open>\<^verbatim>\<open>agents/convo_agent.py\<close>: document intake\<close>

definition specialty_map :: "(string \<times> string list) list" where
  "specialty_map =
     [(''chest pain'', [''Cardiology'']),
      (''shortness of breath'', [''Pulmonology'', ''Cardiology'']),
      (''high blood pressure'', [''Cardiology'', ''Internal Medicine'']),
      (''diabetes'', [''Endocrinology'', ''Internal Medicine'']),
      (''elevated lipids'', [''Cardiology'', ''Endocrinology'']),
      (''fracture'', [''Orthopedics'']),
      (''skin rash'', [''Dermatology'']),
      (''abdominal pain'', [''Gastroenterology''])]"

text \<open>The rule-based pass: the two nested loops over the keywords and the items of the map.\<close>

definition rule_based :: "'f pyenv \<Rightarrow> string list \<Rightarrow> string list" where
  "rule_based env keywords =
     foldl (\<lambda>suggested kw.
              foldl (\<lambda>suggested (token, specs).
                       if sublist token (lower env kw) then set_update suggested specs else suggested)
                suggested specialty_map)
       [] keywords"

text \<open>
  \<open>re.split\<close> on the runs of commas, newlines and semicolons: the pieces between the runs,
  with an empty piece where the text starts or ends with a run.
\<close>

definition is_sep :: "char \<Rightarrow> bool" where
  "is_sep c = (c = CHR '','' \<or> c = CHR ''\<newline>'' \<or> c = CHR '';'')"

function re_split_seps :: "string \<Rightarrow> string \<Rightarrow> string list" where
  "re_split_seps cur [] = [cur]"
| "re_split_seps cur (c # cs) =
     (if is_sep c then cur # re_split_seps [] (dropWhile is_sep cs)
      else re_split_seps (cur @ [c]) cs)"
  by pat_completeness auto
termination
  by (relation "measure (\<lambda>(cur, s). length s)")
     (auto simp: length_dropWhile_le less_Suc_eq_le)

text \<open>
  Lines 301 to 310, given \<open>ms_text\<close>: what the model's answer adds to the empty set
  \<open>suggested\<close>.
\<close>

definition sentinel_markers :: "string list" where
  "sentinel_markers = [''MODEL_TRUNCATED'', ''SIMULATED MODEL RESPONSE'', ''API ERROR'', ''UNPARSEABLE'']"

definition model_fallback :: "'f pyenv \<Rightarrow> string \<Rightarrow> string list" where
  "model_fallback env ms_text =
     (if strip ms_text = [] \<or> list_ex (\<lambda>sig. sublist sig (upper env ms_text)) sentinel_markers
      then set_update [] [''Primary Care'', ''Internal Medicine'']
      else
        (let parts = map strip (filter (\<lambda>p. length (strip p) > 2) (re_split_seps [] ms_text))
         in foldl set_add [] (take 6 parts)))"

text \<open>
  The prompt of line 297 and \<open>ms_text = str(model_suggestions or "")\<close>; then
  \<open>handle_uploaded_document\<close>, which returns \<open>list(suggested)\<close> and leaves the summary event
  in the memory bank; \<open>now\<close> is the value of \<open>time.time()\<close>.
\<close>

definition specialty_prompt :: "'f pyenv \<Rightarrow> string list \<Rightarrow> string" where
  "specialty_prompt env keywords =
     ''Given these extracted keywords from a medical record: '' @
     py_str env (JArr (map JStr (take 20 keywords))) @
     '', suggest likely medical specialties a patient should visit.''"

definition model_text :: "'f pyenv \<Rightarrow> ('f, 'a) agent_scheme \<Rightarrow> string list \<Rightarrow> string" where
  "model_text env ag keywords =
     (let model_suggestions = call_gemini env ag (specialty_prompt env keywords) 200 DEFAULT_TEMPERATURE
      in py_format env (py_or env model_suggestions (JStr [])))"

definition handle_uploaded_document ::
  "'f pyenv \<Rightarrow> ('f, 'a) agent_scheme \<Rightarrow> string \<Rightarrow> string \<Rightarrow> 'f \<Rightarrow>
     string list \<times> ('f, 'a) agent_scheme" where
  "handle_uploaded_document env ag user_id doc_text now =
     (let keywords = extract_keywords env doc_text 20;
          suggested = rule_based env keywords;
          suggested =
            (if suggested = [] then model_fallback env (model_text env ag keywords)
             else suggested);
          summary_entry =
            [(''type'', JStr ''uploaded_doc_summary''),
             (''user_id'', JStr user_id),
             (''keywords'', JArr (map JStr keywords)),
             (''suggested_specialties'', JArr (map JStr (set_iter env suggested))),
             (''raw_excerpt'', JStr (take 500 doc_text)),
             (''recorded_at'', JFloat now)]
      in (set_iter env suggested,
          ag\<lparr>memory := append_user_event (memory ag) user_id summary_entry now\<rparr>))"

text \<open>
  Vocabulary for the properties of the intake: the stripped pieces of the model's text that
  are longer than 2 characters.
\<close>

definition fragments :: "string \<Rightarrow> string list" where
  "fragments ms_text = filter (\<lambda>p. length p > 2) (map strip (re_split_seps [] ms_text))"

subsection \<open>A sample environment and sample data\<close>

text \<open>
  The examples below run the definitions in one environment: ASCII text, floats that are
  whole numbers of seconds (the type \<open>int\<close>), sets that iterate in insertion order, the
  time zone UTC. \<open>sample_dumps\<close> and \<open>sample_repr\<close> are \<open>json.dumps\<close> and \<open>repr\<close> for values
  whose strings need no escapes; \<open>sample_strftime\<close> knows the time stamps of the examples.
\<close>

definition ascii_isword :: "char \<Rightarrow> bool" where
  "ascii_isword c =
     (let n = (of_char c :: nat)
      in (48 \<le> n \<and> n \<le> 57) \<or> (65 \<le> n \<and> n \<le> 90) \<or> n = 95 \<or> (97 \<le> n \<and> n \<le> 122))"

definition translate :: "string \<Rightarrow> string \<Rightarrow> char \<Rightarrow> char" where
  "translate src dst c = (case map_of (zip src dst) c of None \<Rightarrow> c | Some c' \<Rightarrow> c')"

definition ascii_lower :: "string \<Rightarrow> string" where
  "ascii_lower s = map (translate ''ABCDEFGHIJKLMNOPQRSTUVWXYZ'' ''abcdefghijklmnopqrstuvwxyz'') s"

definition ascii_upper :: "string \<Rightarrow> string" where
  "ascii_upper s = map (translate ''abcdefghijklmnopqrstuvwxyz'' ''ABCDEFGHIJKLMNOPQRSTUVWXYZ'') s"

fun decimal :: "nat \<Rightarrow> string" where
  "decimal n =
     (if n < 10 then [''0123456789'' ! n] else decimal (n div 10) @ [''0123456789'' ! (n mod 10)])"

definition decimal_int :: "int \<Rightarrow> string" where
  "decimal_int i = (if i < 0 then ''-'' @ decimal (nat (- i)) else decimal (nat i))"

primrec sample_dumps :: "int json \<Rightarrow> string" where
  "sample_dumps JNull = ''null''"
| "sample_dumps (JBool b) = (if b then ''true'' else ''false'')"
| "sample_dumps (JInt i) = decimal_int i"
| "sample_dumps (JFloat x) = decimal_int x @ ''.0''"
| "sample_dumps (JStr s) = [CHR 0x22] @ s @ [CHR 0x22]"
| "sample_dumps (JArr xs) = ''['' @ join '', '' (map sample_dumps xs) @ '']''"
| "sample_dumps (JObj kvs) =
     ''{'' @ join '', '' (map (\<lambda>(k, s). [CHR 0x22] @ k @ [CHR 0x22] @ '': '' @ s)
                             (map (map_prod id sample_dumps) kvs)) @ ''}''"

primrec sample_repr :: "int json \<Rightarrow> string" where
  "sample_repr JNull = ''None''"
| "sample_repr (JBool b) = (if b then ''True'' else ''False'')"
| "sample_repr (JInt i) = decimal_int i"
| "sample_repr (JFloat x) = decimal_int x @ ''.0''"
| "sample_repr (JStr s) = [CHR 0x27] @ s @ [CHR 0x27]"
| "sample_repr (JArr xs) = ''['' @ join '', '' (map sample_repr xs) @ '']''"
| "sample_repr (JObj kvs) =
     ''{'' @ join '', '' (map (\<lambda>(k, s). [CHR 0x27] @ k @ [CHR 0x27] @ '': '' @ s)
                             (map (map_prod id sample_repr) kvs)) @ ''}''"

definition sample_str :: "int json \<Rightarrow> string" where
  "sample_str v = (case v of JStr s \<Rightarrow> s | _ \<Rightarrow> sample_repr v)"

definition sample_strftime :: "int json \<Rightarrow> string option" where
  "sample_strftime ts =
     (if ts = JFloat 0 \<or> ts = JInt 0 then Some ''1970-01-01 00:00''
      else if ts = JFloat 1700000000 \<or> ts = JInt 1700000000 then Some ''2023-11-14 22:13''
      else None)"

definition sample_env :: "(request \<Rightarrow> int http_result) \<Rightarrow> int pyenv" where
  "sample_env net =
     \<lparr>isword = ascii_isword, lower = ascii_lower, upper = ascii_upper,
      float_truthy = (\<lambda>x. x \<noteq> 0), py_str = sample_str, json_dumps = sample_dumps,
      strftime_local = sample_strftime, set_iter = (\<lambda>xs. xs), requests_post = net\<rparr>"

definition offline :: "request \<Rightarrow> int http_result" where
  "offline req = Request_failed"

definition demo_agent :: "int agent" where
  "demo_agent =
     \<lparr>GEMINI_API_KEY = None,
      GEMINI_ENDPOINT = ''https://generativelanguage.googleapis.com/v1beta'',
      GEMINI_MODEL = ''models/gemini-2.5-pro'',
      memory = append_user_event empty_bank ''u1''
        [(''type'', JStr ''adherence_event''), (''user_id'', JStr ''u1''),
         (''med'', JStr ''Metformin''), (''timestamp'', JFloat 1700000000)] 1700000000\<rparr>"


definition chat_event :: "int event" where
  "chat_event = [(''type'', JStr ''cli_chat''), (''user_id'', JStr ''u1''),
                 (''prompt'', JStr ''hello there''), (''ts'', JFloat 1700000060)]"

definition bare_event :: "int event" where
  "bare_event = [(''type'', JStr ''note'')]"

definition metformin_event :: "int event" where
  "metformin_event =
     [(''type'', JStr ''adherence_event''), (''user_id'', JStr ''u1''),
      (''med'', JStr ''Metformin''), (''timestamp'', JFloat 1700000000),
      (''recorded_at'', JFloat 1700000000)]"

definition keyed_agent :: "int agent" where
  "keyed_agent = demo_agent\<lparr>GEMINI_API_KEY := Some ''test-key''\<rparr>"

definition truncated_body :: "int json" where
  "truncated_body =
     JObj [(''candidates'', JArr [JObj
       [(''content'', JObj [(''parts'', JArr [JObj [(''text'', JStr ''Take it with'')]]),
                            (''role'', JStr ''model'')]),
        (''finishReason'', JStr ''MAX_TOKENS'')]])]"

definition cut_off_body :: "int json" where
  "cut_off_body =
     JObj [(''candidates'', JArr [JObj
       [(''content'', JObj [(''role'', JStr ''model'')]),
        (''finishReason'', JStr ''MAX_TOKENS'')]])]"

definition int_text_body :: "int json" where
  "int_text_body =
     JObj [(''candidates'', JArr [JObj
       [(''content'', JObj [(''parts'', JArr [JObj [(''text'', JInt 5)]]),
                            (''role'', JStr ''model'')]),
        (''finishReason'', JStr ''MAX_TOKENS'')]])]"

definition answers :: "int json \<Rightarrow> request \<Rightarrow> int http_result" where
  "answers body req = Response 200 (Some body)"

definition null_keywords_event :: "int event" where
  "null_keywords_event =
     [(''type'', JStr ''uploaded_doc_summary''), (''user_id'', JStr ''u1''),
      (''keywords'', JNull), (''recorded_at'', JFloat 1700000000)]"

definition neuro_body :: "int json" where
  "neuro_body =
     JObj [(''candidates'', JArr [JObj
       [(''content'', JObj [(''parts'', JArr [JObj [(''text'', JStr ''Cardiology, Neurology'')]]),
                            (''role'', JStr ''model'')]),
        (''finishReason'', JStr ''STOP'')]])]"

definition demo_meds :: "med list" where
  "demo_meds = [\<lparr>name = ''Atorvastatin'', time = Some ''08:00''\<rparr>,
                \<lparr>name = ''Metformin'', time = Some ''08:00''\<rparr>]"

definition untimed_meds :: "med list" where
  "untimed_meds = [\<lparr>name = ''Aspirin'', time = None\<rparr>,
                   \<lparr>name = ''Lisinopril'', time = Some ''09:30''\<rparr>,
                   \<lparr>name = ''Warfarin'', time = None\<rparr>]"

section \<open>Properties\<close>

subsection \<open>List facts\<close>

lemma upt_split_two:
  assumes "i < j" and "j < n"
  shows "[0..<n] = [0..<i] @ [i] @ [Suc i..<j] @ [j] @ [Suc j..<n]"
proof -
  have cut: "[a..<c] = [a..<b] @ [b..<c]" if "a \<le> b" "b \<le> c" for a b c :: nat
    using that by (metis le_Suc_ex upt_add_eq_append)
  from cut [of 0 i n] cut [of "Suc i" j n] assms show ?thesis
    by (simp add: upt_conv_Cons)
qed

lemma filter_two:
  assumes ij: "i < j" "j < length xs" and P: "P (xs ! i)" "P (xs ! j)"
    and only: "\<forall>k<length xs. P (xs ! k) \<longrightarrow> k = i \<or> k = j"
  shows "filter P xs = [xs ! i, xs ! j]"
proof -
  have not: "\<not> P (xs ! k)" if "k < length xs" "k \<noteq> i" "k \<noteq> j" for k
    using only that by blast
  have none: "filter P (map ((!) xs) ks) = []"
    if "\<forall>k\<in>set ks. k < length xs \<and> k \<noteq> i \<and> k \<noteq> j" for ks
    using that not by (simp add: filter_empty_conv)
  have "xs = map ((!) xs) [0..<length xs]"
    by (simp add: map_nth)
  then have "filter P xs =
      filter P (map ((!) xs) ([0..<i] @ [i] @ [Suc i..<j] @ [j] @ [Suc j..<length xs]))"
    using upt_split_two [OF ij] by simp
  also have "\<dots> = [xs ! i, xs ! j]"
    using P ij by (simp add: none del: upt_Suc)
  finally show ?thesis .
qed

lemma filter_key_distinct:
  "distinct (map fst al) \<Longrightarrow> map_of al t = Some ns \<Longrightarrow>
     filter (\<lambda>(k, v). k = t) al = [(t, ns)]"
proof (induction al)
  case Nil
  then show ?case by simp
next
  case (Cons p al)
  obtain k v where p: "p = (k, v)" by (cases p)
  show ?case
  proof (cases "k = t")
    case True
    with Cons.prems p have "v = ns" by simp
    moreover have "filter (\<lambda>(k, v). k = t) al = []"
      using Cons.prems(1) p True by (auto simp: filter_empty_conv image_iff)
    ultimately show ?thesis using p True by simp
  next
    case False
    with Cons p show ?thesis by simp
  qed
qed

subsection \<open>The time table built by \<open>medcheck\<close>\<close>

lemma setdefault_append_keys:
  "fst ` set (setdefault_append al t n) = insert t (fst ` set al)"
  by (induction al t n rule: setdefault_append.induct) auto

lemma setdefault_append_distinct:
  "distinct (map fst al) \<Longrightarrow> distinct (map fst (setdefault_append al t n))"
  by (induction al t n rule: setdefault_append.induct) (auto simp: setdefault_append_keys)

lemma map_of_setdefault_append:
  "map_of (setdefault_append al t n) =
     (map_of al)(t \<mapsto> (case map_of al t of None \<Rightarrow> [n] | Some ns \<Rightarrow> ns @ [n]))"
  by (induction al t n rule: setdefault_append.induct) (auto simp: fun_eq_iff)

lemma times_of_snoc:
  "times_of (meds @ [m]) = setdefault_append (times_of meds) (get_time m) (name m)"
  by (simp add: times_of_def)

lemma times_of_distinct: "distinct (map fst (times_of meds))"
proof (induction meds rule: rev_induct)
  case Nil
  show ?case by (simp add: times_of_def)
next
  case (snoc m meds)
  then show ?case by (simp add: times_of_snoc setdefault_append_distinct)
qed

lemma map_of_times_of:
  "map_of (times_of meds) t =
     (if names_at t meds = [] then None else Some (names_at t meds))"
proof (induction meds rule: rev_induct)
  case Nil
  show ?case by (simp add: times_of_def names_at_def)
next
  case (snoc m meds)
  show ?case
  proof (cases "get_time m = t")
    case True
    then show ?thesis
      using snoc.IH by (simp add: times_of_snoc map_of_setdefault_append names_at_def)
  next
    case False
    then show ?thesis
      using snoc.IH by (simp add: times_of_snoc map_of_setdefault_append names_at_def)
  qed
qed

lemma filter_conflict_at_map:
  "filter (conflict_at t) (map (\<lambda>(k, ns). Timing_conflict k ns) al) =
     map (\<lambda>(k, ns). Timing_conflict k ns) (filter (\<lambda>(k, ns). k = t) al)"
  by (induction al) auto

lemma medcheck_unfold:
  "\<exists>rest. medcheck meds =
       map (\<lambda>(k, ns). Timing_conflict k ns)
         (filter (\<lambda>(k, ns). length ns > 1) (times_of meds)) @ rest
     \<and> (\<forall>t. filter (conflict_at t) rest = [])"
  unfolding medcheck_def Let_def times_of_def append_assoc
  by (intro exI conjI, rule refl) simp_all

lemma conflicts_at:
  "filter (conflict_at t) (medcheck meds) =
     (if length (names_at t meds) > 1 then [Timing_conflict t (names_at t meds)] else [])"
proof -
  let ?al = "times_of meds"
  obtain rest where m: "medcheck meds =
     map (\<lambda>(k, ns). Timing_conflict k ns) (filter (\<lambda>(k, ns). length ns > 1) ?al) @ rest"
    and r: "filter (conflict_at t) rest = []"
    using medcheck_unfold by blast
  have split: "filter (conflict_at t) (medcheck meds) =
      map (\<lambda>(k, ns). Timing_conflict k ns)
        (filter (\<lambda>(k, ns). length ns > 1) (filter (\<lambda>(k, ns). k = t) ?al))"
    unfolding m using r
    by (simp add: filter_conflict_at_map del: filter_filter)
       (simp add: conj_commute case_prod_unfold)
  show ?thesis
  proof (cases "names_at t meds = []")
    case True
    then have "map_of ?al t = None" by (simp add: map_of_times_of)
    then have "filter (\<lambda>(k, ns). k = t) ?al = []"
      by (auto simp: filter_empty_conv map_of_eq_None_iff image_iff)
    with True split show ?thesis by simp
  next
    case False
    then have "map_of ?al t = Some (names_at t meds)" by (simp add: map_of_times_of)
    then have "filter (\<lambda>(k, ns). k = t) ?al = [(t, names_at t meds)]"
      by (rule filter_key_distinct [OF times_of_distinct])
    with split show ?thesis by simp
  qed
qed

lemma names_at_two:
  assumes "i < j" and "j < length meds"
    and "get_time (meds ! i) = t" and "get_time (meds ! j) = t"
  shows "name (meds ! i) \<in> set (names_at t meds)"
    and "name (meds ! j) \<in> set (names_at t meds)"
    and "length (names_at t meds) > 1"
proof -
  let ?P = "\<lambda>m. get_time m = t"
  from assms have i: "meds ! i \<in> set (filter ?P meds)" and j: "meds ! j \<in> set (filter ?P meds)"
    by simp_all
  then show "name (meds ! i) \<in> set (names_at t meds)" "name (meds ! j) \<in> set (names_at t meds)"
    unfolding names_at_def by (simp_all del: set_filter)
  have "[i, j] = filter (\<lambda>k. k = i \<or> k = j) [0..<length meds]"
    using assms(1,2) by (simp add: upt_split_two [of i j "length meds"] del: upt_Suc)
  also have "length \<dots> \<le> length (filter (\<lambda>k. ?P (meds ! k)) [0..<length meds])"
    unfolding length_filter_conv_card
    by (rule card_mono) (use assms in auto)
  also have "\<dots> = length (filter ?P (map ((!) meds) [0..<length meds]))"
    by (simp add: filter_map comp_def)
  also have "\<dots> = length (names_at t meds)"
    by (simp add: map_nth names_at_def)
  finally show "length (names_at t meds) > 1" by simp
qed

subsection \<open>Two medications at the same time\<close>

text \<open>
  Claim C5. Let two entries of a medication list carry the same \<open>time\<close> string \<open>t\<close>. Then
  the flags of \<open>medcheck\<close> hold exactly one \<open>timing_conflict\<close> flag for the time \<open>t\<close>; its
  medication list is the list of the names of all entries scheduled at \<open>t\<close>, so it names
  both medications; and when these two are the only entries scheduled at \<open>t\<close>, the flag
  lists exactly the two names, in the order of the list.
\<close>

theorem medcheck_shared_time_conflict:
  assumes "i < j" and "j < length meds"
    and "time (meds ! i) = Some t" and "time (meds ! j) = Some t"
  shows "filter (conflict_at t) (medcheck meds) = [Timing_conflict t (names_at t meds)]
       \<and> name (meds ! i) \<in> set (names_at t meds)
       \<and> name (meds ! j) \<in> set (names_at t meds)
       \<and> ((\<forall>k<length meds. get_time (meds ! k) = t \<longrightarrow> k = i \<or> k = j) \<longrightarrow>
            filter (conflict_at t) (medcheck meds) =
              [Timing_conflict t [name (meds ! i), name (meds ! j)]])"
proof -
  have gi: "get_time (meds ! i) = t" and gj: "get_time (meds ! j) = t"
    using assms(3,4) by (simp_all add: get_time_def)
  note two = names_at_two [OF assms(1,2) gi gj]
  have one: "filter (conflict_at t) (medcheck meds) = [Timing_conflict t (names_at t meds)]"
    using two(3) by (simp add: conflicts_at)
  have "names_at t meds = [name (meds ! i), name (meds ! j)]"
    if "\<forall>k<length meds. get_time (meds ! k) = t \<longrightarrow> k = i \<or> k = j"
    unfolding names_at_def
    using filter_two [of i j meds "\<lambda>m. get_time m = t", OF assms(1,2) gi gj that] by simp
  with one two(1,2) show ?thesis by simp
qed

theorem medcheck_shared_time_conflict_witness:
  "(0::nat) < 1 \<and> 1 < length demo_meds
     \<and> time (demo_meds ! 0) = Some ''08:00'' \<and> time (demo_meds ! 1) = Some ''08:00''
     \<and> medcheck demo_meds = [Timing_conflict ''08:00'' [''Atorvastatin'', ''Metformin'']]
     \<and> filter (conflict_at ''08:00'') (medcheck demo_meds) =
         [Timing_conflict ''08:00'' [''Atorvastatin'', ''Metformin'']]"
proof -
  have h: "(0::nat) < 1" "1 < length demo_meds"
    "time (demo_meds ! 0) = Some ''08:00''" "time (demo_meds ! 1) = Some ''08:00''"
    by (simp_all add: demo_meds_def)
  have run: "medcheck demo_meds = [Timing_conflict ''08:00'' [''Atorvastatin'', ''Metformin'']]"
    by (simp add: medcheck_def demo_meds_def get_time_def)
  from medcheck_shared_time_conflict [OF h]
  have "filter (conflict_at ''08:00'') (medcheck demo_meds) =
      [Timing_conflict ''08:00'' (names_at ''08:00'' demo_meds)]"
    by blast
  then show ?thesis
    using h run by (simp add: names_at_def demo_meds_def get_time_def)
qed

subsection \<open>Medications without a time\<close>

text \<open>
  Claim C9. An entry with no \<open>time\<close> field is scheduled at \<open>"00:00"\<close>. When two or more
  entries have no \<open>time\<close> field, the flags of \<open>medcheck\<close> hold a \<open>timing_conflict\<close> flag for
  \<open>"00:00"\<close> (exactly one), and every medication that omitted its time is named in it.
\<close>

theorem medcheck_missing_time_conflict:
  assumes "i < j" and "j < length meds"
    and "time (meds ! i) = None" and "time (meds ! j) = None"
  shows "(\<forall>m \<in> set meds. time m = None \<longrightarrow> get_time m = ''00:00'')
       \<and> Timing_conflict ''00:00'' (names_at ''00:00'' meds) \<in> set (medcheck meds)
       \<and> filter (conflict_at ''00:00'') (medcheck meds) =
           [Timing_conflict ''00:00'' (names_at ''00:00'' meds)]
       \<and> (\<forall>m \<in> set meds. time m = None \<longrightarrow> name m \<in> set (names_at ''00:00'' meds))"
proof -
  have dflt: "get_time m = ''00:00''" if "time m = None" for m :: "'a med_scheme"
    using that by (simp add: get_time_def)
  note two = names_at_two [OF assms(1,2) dflt [OF assms(3)] dflt [OF assms(4)]]
  have one: "filter (conflict_at ''00:00'') (medcheck meds) =
      [Timing_conflict ''00:00'' (names_at ''00:00'' meds)]"
    using two(3) by (simp add: conflicts_at)
  then have "Timing_conflict ''00:00'' (names_at ''00:00'' meds)
      \<in> set (filter (conflict_at ''00:00'') (medcheck meds))"
    by simp
  then have mem: "Timing_conflict ''00:00'' (names_at ''00:00'' meds) \<in> set (medcheck meds)"
    by (simp del: One_nat_def)
  have "name m \<in> set (names_at ''00:00'' meds)" if "m \<in> set meds" "time m = None" for m
    using that dflt [of m] by (auto simp: names_at_def)
  with dflt one mem show ?thesis by blast
qed

theorem medcheck_missing_time_conflict_witness:
  "(0::nat) < 2 \<and> 2 < length untimed_meds
     \<and> time (untimed_meds ! 0) = None \<and> time (untimed_meds ! 2) = None
     \<and> medcheck untimed_meds =
         [Timing_conflict ''00:00'' [''Aspirin'', ''Warfarin''],
          Interaction [''Warfarin'', ''Aspirin''] ''high'' ''Bleeding risk'']
     \<and> Timing_conflict ''00:00'' [''Aspirin'', ''Warfarin''] \<in> set (medcheck untimed_meds)"
proof -
  have h: "(0::nat) < 2" "2 < length untimed_meds"
    "time (untimed_meds ! 0) = None" "time (untimed_meds ! 2) = None"
    by (simp_all add: untimed_meds_def)
  have run: "medcheck untimed_meds =
      [Timing_conflict ''00:00'' [''Aspirin'', ''Warfarin''],
       Interaction [''Warfarin'', ''Aspirin''] ''high'' ''Bleeding risk'']"
    by (simp add: medcheck_def untimed_meds_def get_time_def)
  from medcheck_missing_time_conflict [OF h]
  have "Timing_conflict ''00:00'' (names_at ''00:00'' untimed_meds) \<in> set (medcheck untimed_meds)"
    by blast
  then show ?thesis
    using h run by (simp add: names_at_def untimed_meds_def get_time_def)
qed

subsection \<open>The event store\<close>

lemma get_append_same:
  "get_user_memory (append_user_event mb u ev now) u = get_user_memory mb u @ [stamped ev now]"
  by (simp add: get_user_memory_def append_user_event_def save_def stamped_def Let_def
      split: option.splits)

lemma get_append_other:
  "u' \<noteq> u \<Longrightarrow> get_user_memory (append_user_event mb u ev now) u' = get_user_memory mb u'"
  by (simp add: get_user_memory_def append_user_event_def save_def Let_def)

lemma stamped_recorded_at: "has_key (stamped ev now) ''recorded_at''"
  by (simp add: has_key_def stamped_def map_of_append map_add_def split: option.splits)

lemma stamped_other_key: "k \<noteq> ''recorded_at'' \<Longrightarrow> map_of (stamped ev now) k = map_of ev k"
  by (simp add: stamped_def map_of_append map_add_def split: option.splits)

lemma all_recorded_append:
  assumes "all_recorded mb"
  shows "all_recorded (append_user_event mb u ev now)"
  unfolding all_recorded_def
proof
  fix u'
  from assms have inv: "list_all (\<lambda>e. has_key e ''recorded_at'') (get_user_memory mb u')"
    by (simp add: all_recorded_def)
  show "list_all (\<lambda>e. has_key e ''recorded_at'')
          (get_user_memory (append_user_event mb u ev now) u')"
  proof (cases "u' = u")
    case True
    with inv show ?thesis
      by (simp add: get_append_same stamped_recorded_at)
  next
    case False
    with inv show ?thesis by (simp add: get_append_other)
  qed
qed

lemma all_recorded_appends: "all_recorded mb \<Longrightarrow> all_recorded (appends mb ops)"
  by (induction mb ops rule: appends.induct) (simp_all add: all_recorded_append)

lemma all_recorded_empty: "all_recorded empty_bank"
  by (simp add: all_recorded_def get_user_memory_def empty_bank_def)

lemma get_user_memory_empty: "get_user_memory empty_bank u = []"
  by (simp add: get_user_memory_def empty_bank_def)

text \<open>
  Claim C7. Appending an event for a user and then reading the user's memory gives the
  events that were stored for the user before, in their order, followed by one more event:
  the appended event itself when it had a \<open>recorded_at\<close> field, and otherwise the appended
  event with the field \<open>recorded_at\<close>, holding the time of the append, added at its end.
\<close>

theorem append_then_get_roundtrip:
  "get_user_memory (append_user_event mb user_id event now) user_id =
     get_user_memory mb user_id @
       [if map_of event ''recorded_at'' = None
        then event @ [(''recorded_at'', JFloat now)] else event]
   \<and> last (get_user_memory (append_user_event mb user_id event now) user_id) =
       (if map_of event ''recorded_at'' = None
        then event @ [(''recorded_at'', JFloat now)] else event)
   \<and> take (length (get_user_memory mb user_id))
        (get_user_memory (append_user_event mb user_id event now) user_id) =
       get_user_memory mb user_id"
  by (simp add: get_append_same stamped_def)

theorem append_then_get_roundtrip_witness:
  "get_user_memory (append_user_event (memory demo_agent) ''u1'' chat_event 1700000061) ''u1'' =
     [[(''type'', JStr ''adherence_event''), (''user_id'', JStr ''u1''),
       (''med'', JStr ''Metformin''), (''timestamp'', JFloat 1700000000),
       (''recorded_at'', JFloat 1700000000)],
      [(''type'', JStr ''cli_chat''), (''user_id'', JStr ''u1''),
       (''prompt'', JStr ''hello there''), (''ts'', JFloat 1700000060),
       (''recorded_at'', JFloat 1700000061)]]"
proof -
  have old: "get_user_memory (memory demo_agent) ''u1'' =
     [[(''type'', JStr ''adherence_event''), (''user_id'', JStr ''u1''),
       (''med'', JStr ''Metformin''), (''timestamp'', JFloat 1700000000),
       (''recorded_at'', JFloat 1700000000)]]"
    by (simp add: demo_agent_def get_append_same stamped_def get_user_memory_empty)
  from append_then_get_roundtrip [of "memory demo_agent" "''u1''" chat_event 1700000061]
  show ?thesis
    unfolding old by (simp add: chat_event_def)
qed

text \<open>
  Claim C8, as amended. \<open>append_user_event\<close> keeps the invariant that every stored event
  has a \<open>recorded_at\<close> field, so every event of a store built from the empty store by
  appends has one, and so has the event just appended. The store neither adds nor checks
  \<open>user_id\<close>: the stored event has that field exactly when the caller's event had it, with
  the same value. \<open>get_user_memory\<close> for a user with no stored events is the empty list.
\<close>

theorem append_user_event_fields:
  "(all_recorded mb \<longrightarrow> all_recorded (append_user_event mb user_id event now))
   \<and> all_recorded (appends empty_bank ops)
   \<and> has_key (last (get_user_memory (append_user_event mb user_id event now) user_id))
        ''recorded_at''
   \<and> map_of (last (get_user_memory (append_user_event mb user_id event now) user_id))
        ''user_id'' = map_of event ''user_id''
   \<and> (store mb user_id = None \<or> store mb user_id = Some [] \<longrightarrow> get_user_memory mb user_id = [])"
proof -
  have "all_recorded (appends empty_bank ops)"
    by (rule all_recorded_appends [OF all_recorded_empty])
  moreover have "has_key (last (get_user_memory (append_user_event mb user_id event now) user_id))
      ''recorded_at''"
    by (simp add: get_append_same stamped_recorded_at)
  moreover have "map_of (last (get_user_memory (append_user_event mb user_id event now) user_id))
      ''user_id'' = map_of event ''user_id''"
    by (simp add: get_append_same stamped_other_key)
  moreover have "store mb user_id = None \<or> store mb user_id = Some [] \<longrightarrow>
      get_user_memory mb user_id = []"
    by (auto simp: get_user_memory_def)
  moreover have "all_recorded mb \<longrightarrow> all_recorded (append_user_event mb user_id event now)"
    by (simp add: all_recorded_append)
  ultimately show ?thesis
    by (intro conjI)
qed

theorem append_user_event_fields_witness:
  "all_recorded (empty_bank :: int memory_bank)
   \<and> all_recorded (append_user_event (empty_bank :: int memory_bank) ''u1'' bare_event 1700000000)
   \<and> store (empty_bank :: int memory_bank) ''u1'' = None
   \<and> get_user_memory (empty_bank :: int memory_bank) ''u1'' = []
   \<and> get_user_memory (append_user_event empty_bank ''u1'' bare_event 1700000000) ''u1'' =
        [[(''type'', JStr ''note''), (''recorded_at'', JFloat 1700000000)]]"
proof -
  have e: "all_recorded (empty_bank :: int memory_bank)" by (rule all_recorded_empty)
  have s: "store (empty_bank :: int memory_bank) ''u1'' = None" by (simp add: empty_bank_def)
  note fields = append_user_event_fields
    [of "empty_bank :: int memory_bank" "''u1''" bare_event 1700000000 "[]"]
  from fields e
  have a: "all_recorded (append_user_event (empty_bank :: int memory_bank) ''u1'' bare_event 1700000000)"
    by (elim conjE) (erule mp)
  from fields s have g: "get_user_memory (empty_bank :: int memory_bank) ''u1'' = []"
    by (elim conjE) (erule mp, rule disjI1)
  have r: "get_user_memory (append_user_event empty_bank ''u1'' bare_event 1700000000) ''u1'' =
        [[(''type'', JStr ''note''), (''recorded_at'', JFloat (1700000000::int))]]"
    unfolding get_append_same g by (simp add: stamped_def bare_event_def)
  from e a s g r show ?thesis by (intro conjI)
qed

text \<open>
  The claim as stated fails: an event appended without a \<open>user_id\<close> field is stored without
  one.
\<close>

theorem append_user_event_user_id_counterexample:
  "get_user_memory (append_user_event empty_bank ''u1'' bare_event 1700000000) ''u1'' =
     [[(''type'', JStr ''note''), (''recorded_at'', JFloat 1700000000)]]
   \<and> \<not> has_key (last (get_user_memory
          (append_user_event empty_bank ''u1'' bare_event 1700000000) ''u1'')) ''user_id''"
  by (simp add: get_append_same stamped_def bare_event_def has_key_def get_user_memory_empty)

subsection \<open>The model gateway\<close>

text \<open>
  Claim C2. With no API credential (the environment variable is not set, or is empty),
  \<open>call_gemini\<close> returns the string \<open>"SIMULATED MODEL RESPONSE: "\<close> followed by the first 200
  characters of the prompt and \<open>"..."\<close>: a string that starts with
  \<open>"SIMULATED MODEL RESPONSE:"\<close> and holds a copy of the prompt cut to at most 200
  characters. It is a value of the function: nothing is raised.
\<close>

theorem call_gemini_no_credential:
  assumes "GEMINI_API_KEY ag = None \<or> GEMINI_API_KEY ag = Some []"
  shows "call_gemini env ag prompt max_output_tokens temp =
           JStr (''SIMULATED MODEL RESPONSE: '' @ take 200 prompt @ ''...'')
       \<and> (\<exists>s. call_gemini env ag prompt max_output_tokens temp = JStr s
              \<and> prefix ''SIMULATED MODEL RESPONSE:'' s
              \<and> sublist (take 200 prompt) s)
       \<and> length (take 200 prompt) \<le> 200
       \<and> prefix (take 200 prompt) prompt"
proof -
  have eq: "call_gemini env ag prompt max_output_tokens temp =
      JStr (''SIMULATED MODEL RESPONSE: '' @ take 200 prompt @ ''...'')"
    using assms by (auto simp: call_gemini_def)
  have "sublist (take 200 prompt) (''SIMULATED MODEL RESPONSE: '' @ take 200 prompt @ ''...'')"
    by (rule sublist_appendI)
  moreover have "prefix ''SIMULATED MODEL RESPONSE:'' (''SIMULATED MODEL RESPONSE: '' @ take 200 prompt @ ''...'')"
    by simp
  moreover have "prefix (take 200 prompt) prompt"
    by (rule take_is_prefix)
  ultimately show ?thesis using eq by simp
qed

theorem call_gemini_no_credential_witness:
  "GEMINI_API_KEY demo_agent = None
   \<and> call_gemini (sample_env offline) demo_agent ''hello'' DEFAULT_MAX_OUTPUT_TOKENS
        DEFAULT_TEMPERATURE = JStr ''SIMULATED MODEL RESPONSE: hello...''"
proof -
  have k: "GEMINI_API_KEY demo_agent = None" by (simp add: demo_agent_def)
  then have "GEMINI_API_KEY demo_agent = None \<or> GEMINI_API_KEY demo_agent = Some []" by simp
  from call_gemini_no_credential [OF this, of "sample_env offline" "''hello''"
      DEFAULT_MAX_OUTPUT_TOKENS DEFAULT_TEMPERATURE] k
  show ?thesis by simp
qed

lemma truncated_max_tokens:
  assumes cand: "map_of d ''candidates'' = Some (JArr (JObj c0 # cands))"
    and fin: "map_of c0 ''finishReason'' = Some (JStr ''MAX_TOKENS'')"
  shows "truncated env (JObj d) out =
     (if truthy env out
      then (case out of JStr s \<Rightarrow> Some (JStr (s @ truncation_note)) | _ \<Rightarrow> None)
      else Some (JStr ''MODEL_TRUNCATED: Increase max_output_tokens. Partial candidate logged.''))"
proof -
  have "first_candidate env (JObj d) = Inr (JObj c0)"
    using cand by (simp add: first_candidate_def dict_get_def py_or_def)
  moreover have "c0 \<noteq> []" using fin by auto
  ultimately show ?thesis
    using fin by (simp add: truncated_def dict_get_def)
qed

text \<open>
  The truncation check on a body that came with status 200 and whose first candidate is a
  dict with \<open>finishReason\<close> equal to \<open>"MAX_TOKENS"\<close>, in the two cases where its result is
  a string: when \<open>extract_text\<close> yields a non-empty string, \<open>call_gemini\<close> returns that
  string followed by the note that advises to raise \<open>max_output_tokens\<close>; when it yields
  a falsy value (\<open>None\<close> or the empty string), \<open>call_gemini\<close> returns the sentinel
  \<open>MODEL_TRUNCATED\<close> string.
\<close>

lemma call_gemini_max_tokens_cases:
  assumes key: "GEMINI_API_KEY ag = Some api_key" "api_key \<noteq> []"
    and resp: "requests_post env (gemini_request ag api_key prompt max_output_tokens temp) =
                 Response 200 (Some (JObj d))"
    and cand: "map_of d ''candidates'' = Some (JArr (JObj c0 # cands))"
    and fin: "map_of c0 ''finishReason'' = Some (JStr ''MAX_TOKENS'')"
  shows "(\<forall>s. extract_text env (JObj d) = JStr s \<and> s \<noteq> [] \<longrightarrow>
            call_gemini env ag prompt max_output_tokens temp =
              JStr (s @ ''\<newline>\<newline>---\<newline>(Note: model truncated by MAX_TOKENS; consider raising max_output_tokens)''))
       \<and> (\<not> truthy env (extract_text env (JObj d)) \<longrightarrow>
            call_gemini env ag prompt max_output_tokens temp =
              JStr ''MODEL_TRUNCATED: Increase max_output_tokens. Partial candidate logged.'')"
proof -
  have d: "d \<noteq> []" using cand by auto
  have call: "call_gemini env ag prompt max_output_tokens temp =
      (case truncated env (JObj d) (extract_text env (JObj d)) of
         Some r \<Rightarrow> r
       | None \<Rightarrow> if truthy env (extract_text env (JObj d)) then extract_text env (JObj d)
                  else JStr ''SIMULATED MODEL RESPONSE (unparseable). See logs.'')"
    using key resp d by (simp add: call_gemini_def Let_def)
  show ?thesis
    unfolding call truncated_max_tokens [OF cand fin]
    by (simp add: truncation_note_def)
qed

lemma extract_truncated: "extract_text (sample_env net) truncated_body = JStr ''Take it with''"
  by (simp add: extract_text_def extract_text_try_def from_candidates_def from_parts_def
      truncated_body_def dict_get_def py_or_def)

lemma extract_cut_off: "extract_text (sample_env net) cut_off_body = JNull"
  by (simp add: extract_text_def extract_text_try_def from_candidates_def from_parts_def
      cut_off_body_def dict_get_def py_or_def)

lemma call_gemini_max_tokens_cases_sample:
  "GEMINI_API_KEY keyed_agent = Some ''test-key''
   \<and> call_gemini (sample_env (answers truncated_body)) keyed_agent ''How do I take it?'' 5
        DEFAULT_TEMPERATURE =
       JStr ''Take it with\<newline>\<newline>---\<newline>(Note: model truncated by MAX_TOKENS; consider raising max_output_tokens)''
   \<and> call_gemini (sample_env (answers cut_off_body)) keyed_agent ''How do I take it?'' 5
        DEFAULT_TEMPERATURE =
       JStr ''MODEL_TRUNCATED: Increase max_output_tokens. Partial candidate logged.''"
proof -
  have k: "GEMINI_API_KEY keyed_agent = Some ''test-key''" "''test-key'' \<noteq> []"
    by (simp_all add: keyed_agent_def)
  have r: "requests_post (sample_env (answers body))
      (gemini_request keyed_agent ''test-key'' ''How do I take it?'' 5 DEFAULT_TEMPERATURE) =
      Response 200 (Some body)" for body
    by (simp add: sample_env_def answers_def)
  have c1: "map_of [(''candidates'', JArr [JObj
       [(''content'', JObj [(''parts'', JArr [JObj [(''text'', JStr ''Take it with'')]]),
                            (''role'', JStr ''model'')]),
        (''finishReason'', JStr ''MAX_TOKENS'')]])] ''candidates'' =
     Some (JArr (JObj [(''content'', JObj [(''parts'', JArr [JObj [(''text'', JStr ''Take it with'')]]),
                            (''role'', JStr ''model'')]),
        (''finishReason'', JStr ''MAX_TOKENS'' :: int json)] # []))"
    by simp
  have f1: "map_of [(''content'', JObj [(''parts'', JArr [JObj [(''text'', JStr ''Take it with'')]]),
                            (''role'', JStr ''model'')]),
        (''finishReason'', JStr ''MAX_TOKENS'' :: int json)] ''finishReason'' = Some (JStr ''MAX_TOKENS'')"
    by simp
  have c2: "map_of [(''candidates'', JArr [JObj
       [(''content'', JObj [(''role'', JStr ''model'')]),
        (''finishReason'', JStr ''MAX_TOKENS'')]])] ''candidates'' =
     Some (JArr (JObj [(''content'', JObj [(''role'', JStr ''model'')]),
        (''finishReason'', JStr ''MAX_TOKENS'' :: int json)] # []))"
    by simp
  have f2: "map_of [(''content'', JObj [(''role'', JStr ''model'')]),
        (''finishReason'', JStr ''MAX_TOKENS'' :: int json)] ''finishReason'' = Some (JStr ''MAX_TOKENS'')"
    by simp
  note t1 = call_gemini_max_tokens_cases [OF k r [of truncated_body, unfolded truncated_body_def] c1 f1]
  note t2 = call_gemini_max_tokens_cases [OF k r [of cut_off_body, unfolded cut_off_body_def] c2 f2]
  from t1 extract_truncated [of "answers truncated_body", unfolded truncated_body_def]
  have a: "call_gemini (sample_env (answers truncated_body)) keyed_agent ''How do I take it?'' 5
        DEFAULT_TEMPERATURE =
       JStr ''Take it with\<newline>\<newline>---\<newline>(Note: model truncated by MAX_TOKENS; consider raising max_output_tokens)''"
    by (simp add: truncated_body_def)
  from t2 extract_cut_off [of "answers cut_off_body", unfolded cut_off_body_def]
  have b: "call_gemini (sample_env (answers cut_off_body)) keyed_agent ''How do I take it?'' 5
        DEFAULT_TEMPERATURE =
       JStr ''MODEL_TRUNCATED: Increase max_output_tokens. Partial candidate logged.''"
    by (simp add: cut_off_body_def)
  from k(1) a b show ?thesis by (intro conjI)
qed

lemma extract_text_first_part:
  assumes cand: "map_of d ''candidates'' = Some (JArr (JObj c0 # cands))"
    and cont: "map_of c0 ''content'' = Some (JObj cd)"
    and parts: "map_of cd ''parts'' = Some (JArr (JObj fd # ps))"
    and field: "map_of fd ''text'' = Some v"
  shows "extract_text env (JObj d) = v"
proof -
  have cd: "cd \<noteq> []" using parts by auto
  have "from_parts (JArr (JObj fd # ps)) = Inr (Some v)"
    using field by (simp add: from_parts_def)
  then have "from_candidates env (JArr (JObj c0 # cands)) = Inr (Some v)"
    using cont parts cd by (simp add: from_candidates_def dict_get_def py_or_def)
  then show ?thesis
    using cand by (simp add: extract_text_def extract_text_try_def dict_get_def py_or_def)
qed

text \<open>
  Claim C3. On a body that came with status 200 and whose first candidate has
  \<open>finishReason\<close> equal to \<open>"MAX_TOKENS"\<close>, the claim gives \<open>call_gemini\<close> two results: the
  extracted text with the note appended, or the sentinel \<open>MODEL_TRUNCATED\<close> string when no
  text could be extracted. The code does not keep to them on every such body. When the
  \<open>text\<close> field of the first content part holds a truthy value that is not a string, the
  first strategy of \<open>extract_text\<close> returns the field as it is (the other strategies test
  \<open>isinstance(..., str)\<close>), \<open>out + note\<close> raises \<open>TypeError\<close>, the \<open>except\<close> of the
  truncation check swallows it, and \<open>call_gemini\<close> returns the value unchanged: neither
  the text with the note nor the sentinel, and not a string at all.
\<close>

theorem call_gemini_max_tokens_non_string:
  assumes key: "GEMINI_API_KEY ag = Some api_key" "api_key \<noteq> []"
    and resp: "requests_post env (gemini_request ag api_key prompt max_output_tokens temp) =
                 Response 200 (Some (JObj d))"
    and cand: "map_of d ''candidates'' = Some (JArr (JObj c0 # cands))"
    and fin: "map_of c0 ''finishReason'' = Some (JStr ''MAX_TOKENS'')"
    and cont: "map_of c0 ''content'' = Some (JObj cd)"
    and parts: "map_of cd ''parts'' = Some (JArr (JObj fd # ps))"
    and field: "map_of fd ''text'' = Some v"
    and v: "truthy env v" "\<not> is_str v"
  shows "extract_text env (JObj d) = v
       \<and> call_gemini env ag prompt max_output_tokens temp = v
       \<and> (\<forall>s. call_gemini env ag prompt max_output_tokens temp \<noteq> JStr s)"
proof -
  have out: "extract_text env (JObj d) = v"
    by (rule extract_text_first_part [OF cand cont parts field])
  have d: "d \<noteq> []" using cand by auto
  have "(case v of JStr s \<Rightarrow> Some (JStr (s @ truncation_note)) | _ \<Rightarrow> None) = None"
    using v(2) by (cases v) simp_all
  then have "truncated env (JObj d) v = None"
    using v(1) by (simp add: truncated_max_tokens [OF cand fin])
  then have call: "call_gemini env ag prompt max_output_tokens temp = v"
    using key resp d out v(1) by (simp add: call_gemini_def Let_def)
  have "v \<noteq> JStr s" for s using v(2) by auto
  with out call show ?thesis by simp
qed

theorem call_gemini_max_tokens_non_string_witness:
  "GEMINI_API_KEY keyed_agent = Some ''test-key''
   \<and> requests_post (sample_env (answers int_text_body))
        (gemini_request keyed_agent ''test-key'' ''How do I take it?'' 5 DEFAULT_TEMPERATURE) =
       Response 200 (Some int_text_body)
   \<and> extract_text (sample_env (answers int_text_body)) int_text_body = JInt 5
   \<and> call_gemini (sample_env (answers int_text_body)) keyed_agent ''How do I take it?'' 5
        DEFAULT_TEMPERATURE = JInt 5"
proof -
  let ?env = "sample_env (answers int_text_body)"
  have k: "GEMINI_API_KEY keyed_agent = Some ''test-key''" "''test-key'' \<noteq> []"
    by (simp_all add: keyed_agent_def)
  have r: "requests_post ?env
      (gemini_request keyed_agent ''test-key'' ''How do I take it?'' 5 DEFAULT_TEMPERATURE) =
      Response 200 (Some int_text_body)"
    by (simp add: sample_env_def answers_def)
  have v: "truthy ?env (JInt 5)" "\<not> is_str (JInt 5 :: int json)"
    by simp_all
  have c: "map_of [(''candidates'', JArr [JObj
       [(''content'', JObj [(''parts'', JArr [JObj [(''text'', JInt 5)]]),
                            (''role'', JStr ''model'')]),
        (''finishReason'', JStr ''MAX_TOKENS'')]])] ''candidates'' =
     Some (JArr (JObj [(''content'', JObj [(''parts'', JArr [JObj [(''text'', JInt 5)]]),
                            (''role'', JStr ''model'')]),
        (''finishReason'', JStr ''MAX_TOKENS'' :: int json)] # []))"
    by simp
  have f: "map_of [(''content'', JObj [(''parts'', JArr [JObj [(''text'', JInt 5)]]),
                            (''role'', JStr ''model'')]),
        (''finishReason'', JStr ''MAX_TOKENS'' :: int json)] ''finishReason'' =
      Some (JStr ''MAX_TOKENS'')"
    by simp
  have ct: "map_of [(''content'', JObj [(''parts'', JArr [JObj [(''text'', JInt 5)]]),
                            (''role'', JStr ''model'')]),
        (''finishReason'', JStr ''MAX_TOKENS'' :: int json)] ''content'' =
      Some (JObj [(''parts'', JArr [JObj [(''text'', JInt 5)]]), (''role'', JStr ''model'')])"
    by simp
  have p: "map_of [(''parts'', JArr [JObj [(''text'', JInt 5)]]),
        (''role'', JStr ''model'' :: int json)] ''parts'' =
      Some (JArr (JObj [(''text'', JInt 5)] # []))"
    by simp
  have t: "map_of [(''text'', JInt 5 :: int json)] ''text'' = Some (JInt 5)"
    by simp
  note bug = call_gemini_max_tokens_non_string
    [OF k r [unfolded int_text_body_def] c f ct p t v [unfolded int_text_body_def],
      folded int_text_body_def]
  have "extract_text ?env int_text_body = JInt 5
      \<and> call_gemini ?env keyed_agent ''How do I take it?'' 5 DEFAULT_TEMPERATURE = JInt 5
      \<and> (\<forall>s. call_gemini ?env keyed_agent ''How do I take it?'' 5 DEFAULT_TEMPERATURE \<noteq> JStr s)"
    by (rule bug)
  with k(1) r show ?thesis by simp
qed

subsection \<open>The memory search\<close>

lemma search_loop_take_filter:
  assumes "int (length matches) < max_results"
  shows "search_loop env q_tokens max_results events matches =
           matches @ take (nat max_results - length matches)
                       (filter (event_matches env q_tokens) events)"
  using assms
proof (induction events arbitrary: matches)
  case Nil
  show ?case by simp
next
  case (Cons ev events)
  show ?case
  proof (cases "event_matches env q_tokens ev")
    case False
    then show ?thesis
      using Cons.prems Cons.IH [of matches]
      by (simp add: event_matches_def Let_def)
  next
    case True
    show ?thesis
    proof (cases "int (length (matches @ [ev])) \<ge> max_results")
      case full: True
      with Cons.prems have "nat max_results - length matches = Suc 0" by simp
      with True full show ?thesis
        by (simp add: event_matches_def Let_def)
    next
      case room: False
      then have lt: "int (length (matches @ [ev])) < max_results" by simp
      then have "nat max_results - length matches = Suc (nat max_results - length (matches @ [ev]))"
        by simp
      with True room Cons.IH [OF lt] show ?thesis
        by (simp add: event_matches_def Let_def)
    qed
  qed
qed

lemma search_memory_take_filter:
  assumes "0 < max_results"
  shows "search_memory env ag user_id query max_results =
     take (nat max_results)
       (filter (event_matches env (query_tokens env query))
          (rev (get_user_memory (memory ag) user_id)))"
proof -
  have none: "filter (event_matches env []) evs = []" for evs :: "'a event list"
    by (simp add: event_matches_def)
  show ?thesis
    using assms
    by (simp add: search_memory_def Let_def search_loop_take_filter none)
qed

text \<open>
  Claim C4. Called with \<open>max_results = 8\<close>, as the responder does, \<open>search_memory\<close> returns
  the first 8 matching events of the user's memory read from the newest to the oldest: at
  most 8 events, in the reverse of the insertion order. The tokens are the first 10 of the
  lowercased word runs of the query that are longer than 2 characters, and when the query
  has no such run the result is empty, whatever is stored.
\<close>

theorem search_memory_newest_first_capped:
  "search_memory env ag user_id query 8 =
     take 8 (filter (event_matches env (query_tokens env query))
               (rev (get_user_memory (memory ag) user_id)))
   \<and> length (search_memory env ag user_id query 8) \<le> 8
   \<and> subseq (search_memory env ag user_id query 8) (rev (get_user_memory (memory ag) user_id))
   \<and> query_tokens env query =
       take 10 (map (lower env) (filter (\<lambda>t. length t > 2) (findall_runs (isword env) [] query)))
   \<and> length (query_tokens env query) \<le> 10
   \<and> (filter (\<lambda>t. length t > 2) (findall_runs (isword env) [] query) = [] \<longrightarrow>
        search_memory env ag user_id query 8 = [])"
proof -
  let ?evs = "rev (get_user_memory (memory ag) user_id)"
  let ?hits = "filter (event_matches env (query_tokens env query)) ?evs"
  have eq: "search_memory env ag user_id query 8 = take 8 ?hits"
    using search_memory_take_filter [of 8 env ag user_id query] by simp
  have "subseq (take 8 ?hits) ?hits"
    by (metis append_take_drop_id list_emb_append_mono subseq_order.order_refl list_emb_Nil self_append_conv)
  moreover have "subseq ?hits ?evs" by simp
  ultimately have sub: "subseq (take 8 ?hits) ?evs"
    using subseq_order.order_trans by blast
  have none: "search_memory env ag user_id query 8 = []"
    if "filter (\<lambda>t. length t > 2) (findall_runs (isword env) [] query) = []"
    using that by (simp add: search_memory_def query_tokens_def Let_def)
  show ?thesis
    using eq sub none by (simp add: query_tokens_def)
qed

lemma demo_memory: "get_user_memory (memory demo_agent) ''u1'' = [metformin_event]"
  by (simp add: demo_agent_def get_append_same stamped_def get_user_memory_empty
      metformin_event_def)

lemma dumps_metformin:
  "ascii_lower (sample_dumps (JObj metformin_event)) =
     [CHR ''{'', CHR 0x22] @ ''type'' @ [CHR 0x22] @ '': '' @ [CHR 0x22] @ ''adherence_event'' @
     [CHR 0x22] @ '', '' @ [CHR 0x22] @ ''user_id'' @ [CHR 0x22] @ '': '' @ [CHR 0x22] @ ''u1'' @
     [CHR 0x22] @ '', '' @ [CHR 0x22] @ ''med'' @ [CHR 0x22] @ '': '' @ [CHR 0x22] @ ''metformin'' @
     [CHR 0x22] @ '', '' @ [CHR 0x22] @ ''timestamp'' @ [CHR 0x22] @ '': 1700000000.0, '' @
     [CHR 0x22] @ ''recorded_at'' @ [CHR 0x22] @ '': 1700000000.0}''"
  by (simp add: metformin_event_def decimal_int_def ascii_lower_def translate_def)

lemma tokens_metformin:
  "query_tokens (sample_env net) ''Did I take my Metformin?'' = [''did'', ''take'', ''metformin'']"
  by (simp add: query_tokens_def sample_env_def ascii_isword_def ascii_lower_def translate_def)

lemma tokens_short: "findall_runs ascii_isword [] ''is it ok'' = [''is'', ''it'', ''ok'']"
  by (simp add: ascii_isword_def)

lemma matches_metformin:
  "event_matches (sample_env net) [''did'', ''take'', ''metformin''] metformin_event"
proof -
  have "lower (sample_env net) (json_dumps (sample_env net) (JObj metformin_event)) =
      ascii_lower (sample_dumps (JObj metformin_event))"
    by (simp add: sample_env_def del: sample_dumps.simps)
  then show ?thesis
    unfolding event_matches_def Let_def dumps_metformin
    by (simp add: sublist_code)
qed

theorem search_memory_newest_first_capped_witness:
  "filter (\<lambda>t. length t > 2) (findall_runs (isword (sample_env offline)) [] ''is it ok'') = []
   \<and> search_memory (sample_env offline) demo_agent ''u1'' ''is it ok'' 8 = []
   \<and> search_memory (sample_env offline) demo_agent ''u1'' ''Did I take my Metformin?'' 8 =
       [metformin_event]"
proof -
  have short: "filter (\<lambda>t. length t > 2)
      (findall_runs (isword (sample_env offline)) [] ''is it ok'') = []"
    by (simp add: sample_env_def tokens_short del: findall_runs.simps)
  note facts = search_memory_newest_first_capped [of "sample_env offline" demo_agent "''u1''"]
  from facts [of "''is it ok''"] short
  have none: "search_memory (sample_env offline) demo_agent ''u1'' ''is it ok'' 8 = []"
    by (elim conjE) (erule mp)
  from facts [of "''Did I take my Metformin?''"]
  have "search_memory (sample_env offline) demo_agent ''u1'' ''Did I take my Metformin?'' 8 =
      take 8 (filter (event_matches (sample_env offline)
                 (query_tokens (sample_env offline) ''Did I take my Metformin?''))
               (rev (get_user_memory (memory demo_agent) ''u1'')))"
    by (elim conjE)
  then have hit: "search_memory (sample_env offline) demo_agent ''u1''
      ''Did I take my Metformin?'' 8 = [metformin_event]"
    by (simp add: demo_memory tokens_metformin matches_metformin)
  from short none hit show ?thesis by (intro conjI)
qed

lemma search_demo_hit:
  "search_memory (sample_env net) demo_agent ''u1'' ''Did I take my Metformin?'' 8 =
     [metformin_event]"
  using search_memory_take_filter [of 8 "sample_env net" demo_agent "''u1''"
      "''Did I take my Metformin?''"]
  by (simp add: demo_memory tokens_metformin matches_metformin)

lemma search_demo_none:
  "search_memory (sample_env net) demo_agent ''u1'' ''is it ok'' 8 = []"
proof -
  have "query_tokens (sample_env net) ''is it ok'' = []"
    by (simp add: query_tokens_def sample_env_def tokens_short del: findall_runs.simps)
  then show ?thesis by (simp add: search_memory_def Let_def)
qed

subsection \<open>The local summarizer\<close>

lemma strip_empty_iff: "strip s = [] \<longleftrightarrow> (\<forall>c \<in> set s. isspace c)"
proof
  assume "\<forall>c \<in> set s. isspace c"
  then have d: "dropWhile isspace s = []" by simp
  show "strip s = []" unfolding strip_def d by simp
next
  assume "strip s = []"
  then have all: "\<forall>c \<in> set (dropWhile isspace s). isspace c"
    by (simp add: strip_def dropWhile_eq_Nil_conv)
  have "dropWhile isspace s = []"
  proof (rule ccontr)
    assume ne: "dropWhile isspace s \<noteq> []"
    then have "\<not> isspace (hd (dropWhile isspace s))" by (rule hd_dropWhile)
    moreover have "hd (dropWhile isspace s) \<in> set (dropWhile isspace s)" using ne by simp
    ultimately show False using all by blast
  qed
  then show "\<forall>c \<in> set s. isspace c" by (simp add: dropWhile_eq_Nil_conv)
qed

lemma dash_not_space: "\<not> isspace CHR ''-''"
  by (simp add: isspace_def)

lemma strip_dash: "prefix ''- '' s \<Longrightarrow> strip s \<noteq> []"
proof -
  assume "prefix ''- '' s"
  then have "CHR ''-'' \<in> set s" by (auto simp: prefix_def)
  with dash_not_space show ?thesis unfolding strip_empty_iff by blast
qed

lemma bullet_prefix: "bullet env ev = Inr b \<Longrightarrow> prefix ''- '' b"
  unfolding bullet_def Let_def
  by (auto split: if_splits sum.splits)

lemma bullets_of_prefix:
  "bullets_of env events = Inr bs \<Longrightarrow>
     length bs = length events \<and> (\<forall>b \<in> set bs. prefix ''- '' b)"
proof (induction events arbitrary: bs)
  case Nil
  then show ?case by simp
next
  case (Cons ev events)
  from Cons.prems obtain b bs' where b: "bullet env ev = Inr b"
    and bs': "bullets_of env events = Inr bs'" and bs: "bs = b # bs'"
    by (auto split: sum.splits)
  from Cons.IH [OF bs'] bullet_prefix [OF b] bs show ?case by simp
qed

lemma join_prefix: "bs \<noteq> [] \<Longrightarrow> prefix (hd bs) (join sep bs)"
  by (induction sep bs rule: join.induct) auto

lemma summarize_events_concise:
  assumes "summarize_events env ag events True = Inr v" and "events \<noteq> []"
  shows "\<exists>s. v = JStr s \<and> prefix ''- '' s \<and> strip s \<noteq> []"
proof -
  from assms obtain bs where bs: "bullets_of env events = Inr bs"
    and v: "v = JStr (join ''\<newline>'' (take 20 bs))"
    by (auto simp: summarize_events_def Let_def split: sum.splits)
  from bullets_of_prefix [OF bs] assms(2) have ne: "take 20 bs \<noteq> []"
    and pre: "prefix ''- '' (hd (take 20 bs))"
    by (cases bs; simp)+
  from join_prefix [OF ne] pre have "prefix ''- '' (join ''\<newline>'' (take 20 bs))"
    using prefix_order.order_trans by blast
  with v strip_dash show ?thesis by blast
qed

lemma str_items_ok: "list_all is_str xs \<Longrightarrow> \<exists>ss. str_items xs = Inr ss"
proof (induction xs)
  case Nil
  show ?case by simp
next
  case (Cons x xs)
  then obtain s ss where "x = JStr s" "str_items xs = Inr ss"
    by (cases x) auto
  then show ?case by simp
qed

lemma py_join_ok: "list_all is_str xs \<Longrightarrow> \<exists>s. py_join sep xs = Inr s"
  using str_items_ok [of xs] by (auto simp: py_join_def)

lemma list_all_take: "list_all P xs \<Longrightarrow> list_all P (take n xs)"
  by (auto simp: list_all_iff dest: in_set_takeD)

lemma bullet_ok:
  assumes "doc_fields_ok ev"
  shows "\<exists>b. bullet env ev = Inr b"
proof (cases "dict_get ev ''type'' (JStr ''event'') = JStr ''uploaded_doc_summary''")
  case False
  then show ?thesis by (simp add: bullet_def Let_def)
next
  case True
  with assms obtain ks ss where ks: "dict_get ev ''keywords'' (JArr []) = JArr ks"
      "list_all is_str ks"
    and ss: "dict_get ev ''suggested_specialties'' (JArr []) = JArr ss" "list_all is_str ss"
    unfolding doc_fields_ok_def
    by (metis str_list.elims(2))
  from py_join_ok [OF list_all_take [OF ks(2)]] obtain meds
    where meds: "py_join '', '' (take 6 ks) = Inr meds" by blast
  from py_join_ok [OF ss(2)] obtain specs
    where specs: "py_join '', '' ss = Inr specs" by blast
  show ?thesis
    using True ks(1) ss(1) meds specs by (simp add: bullet_def Let_def)
qed

lemma bullets_of_ok:
  "list_all doc_fields_ok events \<Longrightarrow> \<exists>bs. bullets_of env events = Inr bs"
proof (induction events)
  case Nil
  show ?case by simp
next
  case (Cons ev events)
  then obtain b bs where "bullet env ev = Inr b" "bullets_of env events = Inr bs"
    using bullet_ok [of ev env] by auto
  then show ?case by simp
qed

lemma summarize_events_ok:
  assumes "list_all doc_fields_ok events"
  shows "\<exists>s. summarize_events env ag events True = Inr (JStr s)"
  using bullets_of_ok [OF assms, of env]
  by (auto simp: summarize_events_def Let_def)

lemma summary_demo:
  "summarize_events (sample_env net) ag [metformin_event] True =
     Inr (JStr ''- Took Metformin at 2023-11-14 22:13'')"
  by (simp add: summarize_events_def bullet_def Let_def metformin_event_def dict_get_def
      py_or_def py_format_def sample_env_def sample_strftime_def)

lemma call_demo:
  "call_gemini env demo_agent ''is it ok'' DEFAULT_MAX_OUTPUT_TOKENS DEFAULT_TEMPERATURE =
     JStr ''SIMULATED MODEL RESPONSE: is it ok...''"
  by (simp add: call_gemini_def demo_agent_def)

subsection \<open>The memory-first responder\<close>

text \<open>
  Claim C1. When the memory search finds no matching event, \<open>respond_with_memory_first\<close>
  returns what \<open>call_gemini\<close> returns for the raw query, with the default arguments,
  unchanged. When the search finds matches and their summary is a string that is not
  blank, it returns the fixed header, the summary and the fixed footer.
\<close>

theorem respond_with_memory_first_cases:
  "(search_memory env ag user_id query 8 = [] \<longrightarrow>
      respond_with_memory_first env ag user_id query =
        Inr (call_gemini env ag query DEFAULT_MAX_OUTPUT_TOKENS DEFAULT_TEMPERATURE))
   \<and> (\<forall>summary.
        search_memory env ag user_id query 8 \<noteq> []
        \<and> summarize_events env ag (search_memory env ag user_id query 8) True = Inr (JStr summary)
        \<and> strip summary \<noteq> [] \<longrightarrow>
        respond_with_memory_first env ag user_id query =
          Inr (JStr (''I found these saved notes related to your question:\<newline>\<newline>'' @ summary @
            ''\<newline>\<newline>If you want more details I can expand or ask the model to interpret these.'')))"
  by (simp add: respond_with_memory_first_def Let_def)

theorem respond_with_memory_first_cases_witness:
  "search_memory (sample_env offline) demo_agent ''u1'' ''is it ok'' 8 = []
   \<and> respond_with_memory_first (sample_env offline) demo_agent ''u1'' ''is it ok'' =
       Inr (JStr ''SIMULATED MODEL RESPONSE: is it ok...'')
   \<and> search_memory (sample_env offline) demo_agent ''u1'' ''Did I take my Metformin?'' 8 =
       [metformin_event]
   \<and> summarize_events (sample_env offline) demo_agent [metformin_event] True =
       Inr (JStr ''- Took Metformin at 2023-11-14 22:13'')
   \<and> strip ''- Took Metformin at 2023-11-14 22:13'' \<noteq> []
   \<and> respond_with_memory_first (sample_env offline) demo_agent ''u1''
        ''Did I take my Metformin?'' =
       Inr (JStr (''I found these saved notes related to your question:\<newline>\<newline>'' @
         ''- Took Metformin at 2023-11-14 22:13'' @
         ''\<newline>\<newline>If you want more details I can expand or ask the model to interpret these.''))"
proof -
  note none = search_demo_none [of offline]
  note hit = search_demo_hit [of offline]
  note sum = summary_demo [of offline demo_agent]
  have blank: "strip ''- Took Metformin at 2023-11-14 22:13'' \<noteq> []"
    by (rule strip_dash) simp
  note cases = respond_with_memory_first_cases [of "sample_env offline" demo_agent "''u1''"]
  from cases [of "''is it ok''"] none
  have a: "respond_with_memory_first (sample_env offline) demo_agent ''u1'' ''is it ok'' =
      Inr (JStr ''SIMULATED MODEL RESPONSE: is it ok...'')"
    by (simp add: call_demo)
  from cases [of "''Did I take my Metformin?''"]
  have "search_memory (sample_env offline) demo_agent ''u1'' ''Did I take my Metformin?'' 8 \<noteq> []
        \<and> summarize_events (sample_env offline) demo_agent
            (search_memory (sample_env offline) demo_agent ''u1'' ''Did I take my Metformin?'' 8)
            True = Inr (JStr ''- Took Metformin at 2023-11-14 22:13'')
        \<and> strip ''- Took Metformin at 2023-11-14 22:13'' \<noteq> [] \<longrightarrow>
      respond_with_memory_first (sample_env offline) demo_agent ''u1''
        ''Did I take my Metformin?'' =
       Inr (JStr (''I found these saved notes related to your question:\<newline>\<newline>'' @
         ''- Took Metformin at 2023-11-14 22:13'' @
         ''\<newline>\<newline>If you want more details I can expand or ask the model to interpret these.''))"
    by (elim conjE) (erule allE)
  moreover have "search_memory (sample_env offline) demo_agent ''u1''
      ''Did I take my Metformin?'' 8 \<noteq> []"
    unfolding hit by simp
  moreover have "summarize_events (sample_env offline) demo_agent
      (search_memory (sample_env offline) demo_agent ''u1'' ''Did I take my Metformin?'' 8)
      True = Inr (JStr ''- Took Metformin at 2023-11-14 22:13'')"
    unfolding hit by (rule sum)
  ultimately have b: "respond_with_memory_first (sample_env offline) demo_agent ''u1''
        ''Did I take my Metformin?'' =
       Inr (JStr (''I found these saved notes related to your question:\<newline>\<newline>'' @
         ''- Took Metformin at 2023-11-14 22:13'' @
         ''\<newline>\<newline>If you want more details I can expand or ask the model to interpret these.''))"
    using blank by blast
  from none a hit sum blank b show ?thesis by (intro conjI)
qed

text \<open>
  Claim C10, as amended. For a non-empty list of events, whenever \<open>summarize_events\<close> (with
  \<open>concise=True\<close>) returns, it returns a string that starts with \<open>"- "\<close> and is not blank;
  it does return when each \<open>uploaded_doc_summary\<close> event has lists of strings (or nothing)
  for \<open>keywords\<close> and \<open>suggested_specialties\<close>. So the responder never takes the branch
  that falls back to the gateway on a blank summary: when the search finds matches, it
  either passes on the exception of the summarizer or returns the template around the
  summary.
\<close>

theorem summarize_events_never_blank:
  "(events \<noteq> [] \<and> summarize_events env ag events True = Inr v \<longrightarrow>
      (\<exists>s. v = JStr s \<and> prefix ''- '' s \<and> strip s \<noteq> []))
   \<and> (events \<noteq> [] \<and> list_all doc_fields_ok events \<longrightarrow>
      (\<exists>s. summarize_events env ag events True = Inr (JStr s) \<and> strip s \<noteq> []))
   \<and> (search_memory env ag user_id query 8 \<noteq> [] \<longrightarrow>
      (\<exists>e. summarize_events env ag (search_memory env ag user_id query 8) True = Inl e
           \<and> respond_with_memory_first env ag user_id query = Inl e)
      \<or> (\<exists>s. summarize_events env ag (search_memory env ag user_id query 8) True = Inr (JStr s)
           \<and> strip s \<noteq> []
           \<and> respond_with_memory_first env ag user_id query =
               Inr (JStr (''I found these saved notes related to your question:\<newline>\<newline>'' @ s @
                 ''\<newline>\<newline>If you want more details I can expand or ask the model to interpret these.''))))"
proof (intro conjI impI)
  assume "events \<noteq> [] \<and> summarize_events env ag events True = Inr v"
  then show "\<exists>s. v = JStr s \<and> prefix ''- '' s \<and> strip s \<noteq> []"
    using summarize_events_concise by blast
next
  assume a: "events \<noteq> [] \<and> list_all doc_fields_ok events"
  then obtain s where s: "summarize_events env ag events True = Inr (JStr s)"
    using summarize_events_ok by blast
  with a summarize_events_concise [OF s] show
    "\<exists>s. summarize_events env ag events True = Inr (JStr s) \<and> strip s \<noteq> []"
    by auto
next
  let ?ms = "search_memory env ag user_id query 8"
  assume ne: "?ms \<noteq> []"
  show "(\<exists>e. summarize_events env ag ?ms True = Inl e
           \<and> respond_with_memory_first env ag user_id query = Inl e)
      \<or> (\<exists>s. summarize_events env ag ?ms True = Inr (JStr s)
           \<and> strip s \<noteq> []
           \<and> respond_with_memory_first env ag user_id query =
               Inr (JStr (''I found these saved notes related to your question:\<newline>\<newline>'' @ s @
                 ''\<newline>\<newline>If you want more details I can expand or ask the model to interpret these.'')))"
  proof (cases "summarize_events env ag ?ms True")
    case (Inl e)
    with ne show ?thesis by (simp add: respond_with_memory_first_def Let_def)
  next
    case (Inr v)
    from summarize_events_concise [OF Inr ne] obtain s where
      s: "v = JStr s" "strip s \<noteq> []" by blast
    with Inr ne show ?thesis by (simp add: respond_with_memory_first_def Let_def)
  qed
qed

theorem summarize_events_never_blank_witness:
  "[metformin_event] \<noteq> []
   \<and> list_all doc_fields_ok [metformin_event]
   \<and> summarize_events (sample_env offline) demo_agent [metformin_event] True =
       Inr (JStr ''- Took Metformin at 2023-11-14 22:13'')
   \<and> prefix ''- '' ''- Took Metformin at 2023-11-14 22:13''
   \<and> strip ''- Took Metformin at 2023-11-14 22:13'' \<noteq> []"
proof -
  have ne: "[metformin_event] \<noteq> []" by simp
  have ok: "list_all doc_fields_ok [metformin_event]"
    by (simp add: doc_fields_ok_def metformin_event_def dict_get_def)
  note sum = summary_demo [of offline demo_agent]
  have "\<exists>s. JStr ''- Took Metformin at 2023-11-14 22:13'' = (JStr s :: int json)
      \<and> prefix ''- '' s \<and> strip s \<noteq> []"
    by (rule mp [OF conjunct1 [OF summarize_events_never_blank
          [of "[metformin_event]" "sample_env offline" demo_agent
             "JStr ''- Took Metformin at 2023-11-14 22:13''"]]])
       (intro conjI ne sum)
  then have "prefix ''- '' ''- Took Metformin at 2023-11-14 22:13''
      \<and> strip ''- Took Metformin at 2023-11-14 22:13'' \<noteq> []"
    by (elim exE conjE) (simp only: json.inject simp_thms)
  then have p: "prefix ''- '' ''- Took Metformin at 2023-11-14 22:13''"
    and b: "strip ''- Took Metformin at 2023-11-14 22:13'' \<noteq> []"
    by (rule conjunct1, rule conjunct2)
  from ne ok sum p b show ?thesis by (intro conjI)
qed

text \<open>
  The claim as stated fails: the summarizer does not return for every non-empty list. On an
  \<open>uploaded_doc_summary\<close> event whose \<open>keywords\<close> is \<open>null\<close> the slice \<open>[:6]\<close> raises
  \<open>TypeError\<close>.
\<close>

theorem summarize_events_raises_counterexample:
  "[null_keywords_event] \<noteq> []
   \<and> summarize_events (sample_env offline) demo_agent [null_keywords_event] True = Inl TypeError"
  by (simp add: summarize_events_def bullet_def Let_def null_keywords_event_def dict_get_def)

subsection \<open>The document intake\<close>

lemma set_foldl_set_add: "set (foldl set_add acc xs) = set acc \<union> set xs"
  by (induction xs arbitrary: acc) (auto simp: set_add_def)

lemma distinct_foldl_set_add: "distinct acc \<Longrightarrow> distinct (foldl set_add acc xs)"
  by (induction xs arbitrary: acc) (auto simp: set_add_def)

lemma length_foldl_set_add: "length (foldl set_add acc xs) \<le> length acc + length xs"
proof (induction xs arbitrary: acc)
  case Nil
  show ?case by simp
next
  case (Cons x xs)
  have "length (foldl set_add (set_add acc x) xs) \<le> length (set_add acc x) + length xs"
    by (rule Cons.IH)
  also have "length (set_add acc x) \<le> Suc (length acc)"
    by (simp add: set_add_def)
  finally show ?case by simp
qed

lemma re_split_seps_no_sep:
  "\<forall>c \<in> set cur. \<not> is_sep c \<Longrightarrow> \<forall>p \<in> set (re_split_seps cur s). \<forall>c \<in> set p. \<not> is_sep c"
proof (induction cur s rule: re_split_seps.induct)
  case (1 cur)
  then show ?case by simp
next
  case (2 cur c cs)
  show ?case
  proof (cases "is_sep c")
    case True
    have "\<forall>p \<in> set (re_split_seps [] (dropWhile is_sep cs)). \<forall>c \<in> set p. \<not> is_sep c"
      by (rule "2.IH"(1) [OF True]) simp
    moreover have "re_split_seps cur (c # cs) = cur # re_split_seps [] (dropWhile is_sep cs)"
      using True by simp
    ultimately show ?thesis using "2.prems" by simp
  next
    case False
    have "\<forall>p \<in> set (re_split_seps (cur @ [c]) cs). \<forall>c \<in> set p. \<not> is_sep c"
      by (rule "2.IH"(2) [OF False]) (use False "2.prems" in simp)
    moreover have "re_split_seps cur (c # cs) = re_split_seps (cur @ [c]) cs"
      using False by simp
    ultimately show ?thesis by simp
  qed
qed

lemma set_strip: "set (strip p) \<subseteq> set p"
proof -
  have "x \<in> set p" if "x \<in> set (strip p)" for x
  proof -
    from that have "x \<in> set (dropWhile isspace (rev (dropWhile isspace p)))"
      by (simp add: strip_def)
    then have "x \<in> set (rev (dropWhile isspace p))" by (rule set_dropWhileD)
    then have "x \<in> set (dropWhile isspace p)" by simp
    then show ?thesis by (rule set_dropWhileD)
  qed
  then show ?thesis by blast
qed

lemma fragments_clean:
  assumes "p \<in> set (fragments ms_text)"
  shows "length p > 2" and "\<forall>c \<in> set p. \<not> is_sep c"
proof -
  from assms obtain q where q: "q \<in> set (re_split_seps [] ms_text)" and p: "p = strip q"
    and len: "length p > 2"
    by (auto simp: fragments_def)
  show "length p > 2" by (rule len)
  from re_split_seps_no_sep [of "[]" ms_text] q have "\<forall>c \<in> set q. \<not> is_sep c" by simp
  with set_strip [of q] p show "\<forall>c \<in> set p. \<not> is_sep c" by blast
qed


lemma parts_fragments:
  "map strip (filter (\<lambda>p. length (strip p) > 2) xs) = filter (\<lambda>p. length p > 2) (map strip xs)"
  by (simp add: filter_map comp_def)

lemma model_fallback_default:
  assumes "strip ms_text = [] \<or> list_ex (\<lambda>sig. sublist sig (upper env ms_text)) sentinel_markers"
  shows "model_fallback env ms_text = [''Primary Care'', ''Internal Medicine'']"
  using assms by (simp add: model_fallback_def set_update_def set_add_def)

lemma model_fallback_fragments:
  assumes "\<not> (strip ms_text = [] \<or> list_ex (\<lambda>sig. sublist sig (upper env ms_text)) sentinel_markers)"
  shows "model_fallback env ms_text = foldl set_add [] (take 6 (fragments ms_text))"
  using assms by (simp add: model_fallback_def Let_def parts_fragments fragments_def)

lemma handle_uploaded_document_fallback:
  assumes "rule_based env (extract_keywords env doc_text 20) = []"
  shows "fst (handle_uploaded_document env ag user_id doc_text now) =
     set_iter env (model_fallback env (model_text env ag (extract_keywords env doc_text 20)))"
  using assms by (simp add: handle_uploaded_document_def Let_def)

text \<open>
  Claim C6, as amended. Let the rule-based pass of \<open>handle_uploaded_document\<close> yield
  nothing, and let \<open>ms_text\<close> be the text of the model's answer. When \<open>ms_text\<close> is blank or
  its uppercase form contains one of the markers \<open>MODEL_TRUNCATED\<close>,
  \<open>SIMULATED MODEL RESPONSE\<close>, \<open>API ERROR\<close>, \<open>UNPARSEABLE\<close>, the suggested specialties are
  the set of \<open>"Primary Care"\<close> and \<open>"Internal Medicine"\<close>. Otherwise the text is split on the
  runs of commas, semicolons and newlines, every piece is stripped of the whitespace around
  it, the stripped pieces longer than 2 characters are kept, and the first 6 of them are
  the suggested specialties: a set of at most 6 strings, each longer than 2 characters
  and free of separators.
\<close>

theorem handle_uploaded_document_model_fallback:
  assumes rules: "rule_based env (extract_keywords env doc_text 20) = []"
    and ms: "ms_text = model_text env ag (extract_keywords env doc_text 20)"
  shows "(strip ms_text = []
          \<or> list_ex (\<lambda>sig. sublist sig (upper env ms_text))
               [''MODEL_TRUNCATED'', ''SIMULATED MODEL RESPONSE'', ''API ERROR'', ''UNPARSEABLE'']
          \<longrightarrow> fst (handle_uploaded_document env ag user_id doc_text now) =
                set_iter env [''Primary Care'', ''Internal Medicine''])
       \<and> (\<not> (strip ms_text = []
              \<or> list_ex (\<lambda>sig. sublist sig (upper env ms_text))
                   [''MODEL_TRUNCATED'', ''SIMULATED MODEL RESPONSE'', ''API ERROR'', ''UNPARSEABLE''])
          \<longrightarrow> (\<exists>suggested.
                 fst (handle_uploaded_document env ag user_id doc_text now) = set_iter env suggested
                 \<and> set suggested =
                     set (take 6 (filter (\<lambda>p. length p > 2) (map strip (re_split_seps [] ms_text))))
                 \<and> distinct suggested \<and> length suggested \<le> 6
                 \<and> (\<forall>p \<in> set suggested. length p > 2 \<and> (\<forall>c \<in> set p. \<not> is_sep c))))"
proof (intro conjI impI)
  assume "strip ms_text = []
      \<or> list_ex (\<lambda>sig. sublist sig (upper env ms_text))
           [''MODEL_TRUNCATED'', ''SIMULATED MODEL RESPONSE'', ''API ERROR'', ''UNPARSEABLE'']"
  then have "strip ms_text = [] \<or> list_ex (\<lambda>sig. sublist sig (upper env ms_text)) sentinel_markers"
    unfolding sentinel_markers_def .
  from model_fallback_default [OF this] show
    "fst (handle_uploaded_document env ag user_id doc_text now) =
       set_iter env [''Primary Care'', ''Internal Medicine'']"
    unfolding handle_uploaded_document_fallback [OF rules] ms by simp
next
  let ?S = "foldl set_add [] (take 6 (fragments ms_text))"
  assume "\<not> (strip ms_text = []
      \<or> list_ex (\<lambda>sig. sublist sig (upper env ms_text))
           [''MODEL_TRUNCATED'', ''SIMULATED MODEL RESPONSE'', ''API ERROR'', ''UNPARSEABLE''])"
  then have "\<not> (strip ms_text = []
      \<or> list_ex (\<lambda>sig. sublist sig (upper env ms_text)) sentinel_markers)"
    unfolding sentinel_markers_def .
  from model_fallback_fragments [OF this]
  have res: "fst (handle_uploaded_document env ag user_id doc_text now) = set_iter env ?S"
    unfolding handle_uploaded_document_fallback [OF rules] ms by simp
  have set: "set ?S = set (take 6 (fragments ms_text))"
    by (simp add: set_foldl_set_add)
  have dist: "distinct ?S"
    by (rule distinct_foldl_set_add) simp
  have "length ?S \<le> length (take 6 (fragments ms_text))"
    using length_foldl_set_add [of "[]" "take 6 (fragments ms_text)"] by simp
  then have len: "length ?S \<le> 6" by simp
  have clean: "\<forall>p \<in> set ?S. length p > 2 \<and> (\<forall>c \<in> set p. \<not> is_sep c)"
  proof
    fix p assume "p \<in> set ?S"
    then have "p \<in> set (fragments ms_text)"
      unfolding set by (rule in_set_takeD)
    then show "length p > 2 \<and> (\<forall>c \<in> set p. \<not> is_sep c)"
      using fragments_clean by blast
  qed
  from res set dist len clean
  have "\<exists>suggested.
      fst (handle_uploaded_document env ag user_id doc_text now) = set_iter env suggested
      \<and> set suggested = set (take 6 (fragments ms_text))
      \<and> distinct suggested \<and> length suggested \<le> 6
      \<and> (\<forall>p \<in> set suggested. length p > 2 \<and> (\<forall>c \<in> set p. \<not> is_sep c))"
    by (intro exI [of _ ?S] conjI)
  then show "\<exists>suggested.
      fst (handle_uploaded_document env ag user_id doc_text now) = set_iter env suggested
      \<and> set suggested =
          set (take 6 (filter (\<lambda>p. length p > 2) (map strip (re_split_seps [] ms_text))))
      \<and> distinct suggested \<and> length suggested \<le> 6
      \<and> (\<forall>p \<in> set suggested. length p > 2 \<and> (\<forall>c \<in> set p. \<not> is_sep c))"
    unfolding fragments_def .
qed

lemma lower_migraine: "lower (sample_env net) ''migraine'' = ''migraine''"
  by (simp add: sample_env_def ascii_lower_def translate_def)

lemma keep_migraine: "map (\<lambda>c. if keep_char c then c else CHR '' '') ''migraine'' = ''migraine''"
  by (simp add: keep_char_def)

lemma tokens_migraine: "filter (\<lambda>w. length w > 2) (split_whitespace ''migraine'') = [''migraine'']"
  by (simp add: split_whitespace_def isspace_def)

lemma ngrams_migraine:
  "set_update []
     (concat (map (\<lambda>n. map (\<lambda>i. join '' '' (take n (drop i [''migraine''])))
                           [0..<length [''migraine''] + 1 - n]) [1, 2, 3])) = [''migraine'']"
  by (simp add: set_update_def set_add_def)

lemma priority_migraine:
  "filter (\<lambda>g. list_ex (\<lambda>k. sublist k g) medical_words) [''migraine''] = []"
  by (simp add: medical_words_def sublist_code)

lemma keywords_migraine: "extract_keywords (sample_env net) ''migraine'' 20 = [''migraine'']"
proof -
  have i: "set_iter (sample_env net) xs = xs" for xs by (simp add: sample_env_def)
  show ?thesis
    unfolding extract_keywords_def Let_def lower_migraine keep_migraine tokens_migraine
      ngrams_migraine i priority_migraine
    by simp
qed

lemma rules_migraine: "rule_based (sample_env net) [''migraine''] = []"
  by (simp add: rule_based_def specialty_map_def lower_migraine sublist_code)

lemma text_offline:
  "model_text (sample_env net) demo_agent kws =
     ''SIMULATED MODEL RESPONSE: '' @ take 200 (specialty_prompt (sample_env net) kws) @ ''...''"
  by (simp add: model_text_def call_gemini_def demo_agent_def py_or_def py_format_def)

lemma upper_append: "ascii_upper (s @ t) = ascii_upper s @ ascii_upper t"
  by (simp add: ascii_upper_def)

lemma marker_offline:
  "list_ex (\<lambda>sig. sublist sig (upper (sample_env net) (model_text (sample_env net) demo_agent kws)))
     [''MODEL_TRUNCATED'', ''SIMULATED MODEL RESPONSE'', ''API ERROR'', ''UNPARSEABLE'']"
proof -
  let ?rest = "take 200 (specialty_prompt (sample_env net) kws) @ ''...''"
  have u: "upper (sample_env net) x = ascii_upper x" for x
    by (simp add: sample_env_def)
  have "upper (sample_env net) (model_text (sample_env net) demo_agent kws) =
      ascii_upper (''SIMULATED MODEL RESPONSE: '' @ ?rest)"
    by (simp only: text_offline u)
  also have "\<dots> = ascii_upper ''SIMULATED MODEL RESPONSE: '' @ ascii_upper ?rest"
    by (rule upper_append)
  also have "ascii_upper ''SIMULATED MODEL RESPONSE: '' = ''SIMULATED MODEL RESPONSE'' @ '': ''"
    by (simp add: ascii_upper_def translate_def)
  finally have "upper (sample_env net) (model_text (sample_env net) demo_agent kws) =
      [] @ ''SIMULATED MODEL RESPONSE'' @ ('': '' @ ascii_upper ?rest)"
    by (simp only: append_assoc append_Nil)
  then have "sublist ''SIMULATED MODEL RESPONSE''
      (upper (sample_env net) (model_text (sample_env net) demo_agent kws))"
    by (simp only: sublist_appendI)
  then show ?thesis by simp
qed

lemma text_neuro:
  "model_text (sample_env (answers neuro_body)) keyed_agent kws = ''Cardiology, Neurology''"
proof -
  have x: "extract_text (sample_env (answers neuro_body)) neuro_body = JStr ''Cardiology, Neurology''"
    by (simp add: extract_text_def extract_text_try_def from_candidates_def from_parts_def
        neuro_body_def dict_get_def py_or_def)
  have t: "truncated (sample_env (answers neuro_body)) neuro_body (JStr ''Cardiology, Neurology'') = None"
    by (simp add: truncated_def first_candidate_def neuro_body_def dict_get_def py_or_def)
  have b: "truthy (sample_env (answers neuro_body)) neuro_body"
    by (simp add: neuro_body_def)
  have "call_gemini (sample_env (answers neuro_body)) keyed_agent p 200 DEFAULT_TEMPERATURE =
      JStr ''Cardiology, Neurology''" for p
    by (simp add: call_gemini_def keyed_agent_def sample_env_def answers_def)
       (simp add: x [unfolded sample_env_def] t [unfolded sample_env_def] b [unfolded sample_env_def])
  then show ?thesis
    by (simp add: model_text_def py_or_def py_format_def)
qed

lemma fragments_neuro:
  "filter (\<lambda>p. length p > 2) (map strip (re_split_seps [] ''Cardiology, Neurology'')) =
     [''Cardiology'', ''Neurology'']"
  by (simp add: is_sep_def strip_def isspace_def)

lemma raw_fragments_neuro:
  "filter (\<lambda>p. length p > 2) (re_split_seps [] ''Cardiology, Neurology'') =
     [''Cardiology'', '' Neurology'']"
  by (simp add: is_sep_def)

lemma not_blank_neuro: "strip ''Cardiology, Neurology'' \<noteq> []"
  by (simp add: strip_def isspace_def)

lemma no_marker_neuro:
  "\<not> list_ex (\<lambda>sig. sublist sig (upper (sample_env net) ''Cardiology, Neurology''))
     [''MODEL_TRUNCATED'', ''SIMULATED MODEL RESPONSE'', ''API ERROR'', ''UNPARSEABLE'']"
  by (simp add: sample_env_def ascii_upper_def translate_def sublist_code)

lemma handle_neuro:
  "fst (handle_uploaded_document (sample_env (answers neuro_body)) keyed_agent ''u1''
          ''migraine'' now) = [''Cardiology'', ''Neurology'']"
proof -
  have "model_fallback (sample_env (answers neuro_body)) ''Cardiology, Neurology'' =
      [''Cardiology'', ''Neurology'']"
    using no_marker_neuro [of "answers neuro_body"] not_blank_neuro
    by (simp add: model_fallback_def Let_def parts_fragments fragments_neuro set_add_def
        sentinel_markers_def del: re_split_seps.simps)
  then show ?thesis
    by (simp add: handle_uploaded_document_def Let_def keywords_migraine rules_migraine text_neuro)
       (simp add: sample_env_def)
qed

lemma sets_differ: "x \<in> set ys \<Longrightarrow> x \<notin> set xs \<Longrightarrow> set xs \<noteq> set ys"
  by blast

theorem handle_uploaded_document_model_fallback_witness:
  "rule_based (sample_env offline) (extract_keywords (sample_env offline) ''migraine'' 20) = []
   \<and> list_ex (\<lambda>sig. sublist sig (upper (sample_env offline)
          (model_text (sample_env offline) demo_agent
             (extract_keywords (sample_env offline) ''migraine'' 20))))
        [''MODEL_TRUNCATED'', ''SIMULATED MODEL RESPONSE'', ''API ERROR'', ''UNPARSEABLE'']
   \<and> fst (handle_uploaded_document (sample_env offline) demo_agent ''u1'' ''migraine''
          1700000100) = [''Primary Care'', ''Internal Medicine'']
   \<and> fst (handle_uploaded_document (sample_env (answers neuro_body)) keyed_agent ''u1''
          ''migraine'' 1700000100) = [''Cardiology'', ''Neurology'']"
proof -
  have rules: "rule_based (sample_env offline)
      (extract_keywords (sample_env offline) ''migraine'' 20) = []"
    by (simp only: keywords_migraine rules_migraine)
  note marker = marker_offline [of offline "extract_keywords (sample_env offline) ''migraine'' 20"]
  have "fst (handle_uploaded_document (sample_env offline) demo_agent ''u1'' ''migraine''
          1700000100) = set_iter (sample_env offline) [''Primary Care'', ''Internal Medicine'']"
    by (rule mp [OF conjunct1 [OF handle_uploaded_document_model_fallback [OF rules refl]]])
       (rule disjI2, rule marker)
  then have dflt: "fst (handle_uploaded_document (sample_env offline) demo_agent ''u1''
      ''migraine'' 1700000100) = [''Primary Care'', ''Internal Medicine'']"
    by (simp add: sample_env_def)
  from rules marker dflt handle_neuro [of 1700000100] show ?thesis by (intro conjI)
qed

text \<open>
  The claim as stated fails: the pieces are stripped before they are measured and kept.
  For the answer \<open>"Cardiology, Neurology"\<close> the second piece of the split is
  \<open>" Neurology"\<close>, with its leading space; the suggested specialty is \<open>"Neurology"\<close>.
\<close>

theorem handle_uploaded_document_unstripped_counterexample:
  "rule_based (sample_env (answers neuro_body))
     (extract_keywords (sample_env (answers neuro_body)) ''migraine'' 20) = []
   \<and> model_text (sample_env (answers neuro_body)) keyed_agent
       (extract_keywords (sample_env (answers neuro_body)) ''migraine'' 20) =
       ''Cardiology, Neurology''
   \<and> take 6 (filter (\<lambda>p. length p > 2) (re_split_seps [] ''Cardiology, Neurology'')) =
       [''Cardiology'', '' Neurology'']
   \<and> fst (handle_uploaded_document (sample_env (answers neuro_body)) keyed_agent ''u1''
          ''migraine'' 1700000100) = [''Cardiology'', ''Neurology'']
   \<and> set (fst (handle_uploaded_document (sample_env (answers neuro_body)) keyed_agent ''u1''
          ''migraine'' 1700000100)) \<noteq>
       set (take 6 (filter (\<lambda>p. length p > 2) (re_split_seps [] ''Cardiology, Neurology'')))"
proof -
  have rules: "rule_based (sample_env (answers neuro_body))
      (extract_keywords (sample_env (answers neuro_body)) ''migraine'' 20) = []"
    by (simp only: keywords_migraine rules_migraine)
  have raw: "take 6 (filter (\<lambda>p. length p > 2) (re_split_seps [] ''Cardiology, Neurology'')) =
      [''Cardiology'', '' Neurology'']"
    by (simp only: raw_fragments_neuro) simp
  have "set [''Cardiology'', ''Neurology''] \<noteq> set [''Cardiology'', '' Neurology'']"
    by (rule sets_differ [of "'' Neurology''"]) simp_all
  then have differ: "set (fst (handle_uploaded_document (sample_env (answers neuro_body))
        keyed_agent ''u1'' ''migraine'' 1700000100)) \<noteq>
      set (take 6 (filter (\<lambda>p. length p > 2) (re_split_seps [] ''Cardiology, Neurology'')))"
    by (simp only: raw handle_neuro simp_thms)
  note mtext = text_neuro [of "extract_keywords (sample_env (answers neuro_body)) ''migraine'' 20"]
  note res = handle_neuro [of 1700000100]
  from rules mtext raw res differ show ?thesis
    by (intro conjI)
qed

end
